theory Spec2Isabelle
  imports Complex_Main "HOL-Library.Word" "HOL-Library.AList" "HOL-Library.Signed_Division"
begin

section \<open>Data model of \<open>llama_bridge_phase3_real.cpp\<close>\<close>

text \<open>
  A shallow embedding of the phase-3 bridge: the tokenizer, the model loader, the forward
  pass, streaming generation, the memory governor and the entry points of the call
  boundary that use them. Conventions: the two global registries and \<open>next_id\<close> are a
  record passed through every operation; what an operation meets outside the bridge (the
  file system, the GGUF and ggml libraries, \<open>rand()\<close>) is an explicit argument;
  undefined behaviour and thrown exceptions are values of the type \<open>fault\<close>;
  the arithmetic of the type \<open>float\<close> is a parameter of the forward pass and of
  sampling, so that what is proved of them holds for every interpretation of the
  operations, with or without rounding, infinities and NaN.
\<close>

text \<open>
  The quantization kinds of \<open>enum ggml_type\<close> that the bridge names in
  \<open>ggmlTypeToString\<close>; every other kind of the ggml header is \<open>GGML_TYPE_OTHER\<close>.
\<close>

datatype ggml_type =
    GGML_TYPE_F32 | GGML_TYPE_F16
  | GGML_TYPE_Q4_0 | GGML_TYPE_Q4_1 | GGML_TYPE_Q5_0 | GGML_TYPE_Q5_1
  | GGML_TYPE_Q8_0 | GGML_TYPE_Q8_1
  | GGML_TYPE_Q2_K | GGML_TYPE_Q3_K | GGML_TYPE_Q4_K | GGML_TYPE_Q5_K
  | GGML_TYPE_Q6_K | GGML_TYPE_Q8_K
  | GGML_TYPE_OTHER nat

text \<open>
  The GGUF reader is a library outside the repository. A parsed container is represented by
  what the accessors used by the bridge return: the unsigned 32-bit value stored under a key
  (\<open>gguf_find_key\<close> with \<open>gguf_get_val_u32\<close>), the string array stored under
  \<open>tokenizer.ggml.tokens\<close> (an entry is \<open>None\<close> where \<open>gguf_get_arr_str\<close>
  gives a null pointer), and the tensor directory in file order
  (\<open>gguf_get_tensor_name\<close>, \<open>gguf_get_tensor_type\<close>, \<open>gguf_get_tensor_size\<close>).
\<close>

record gguf_context =
  kv_u32 :: "string \<rightharpoonup> 32 word"
  tokenizer_tokens :: "string option list option"
  tensor_infos :: "(string \<times> ggml_type \<times> nat) list"

text \<open>
  \<open>struct RealTensorModel\<close>. A \<open>ggml_tensor\<close> created by the bridge is always a
  one-dimensional F32 tensor; it is represented by its element count (its float payload is
  seeded from \<open>rand()\<close> and is read by no operation of the bridge). \<open>ggml_ctx\<close> is
  \<open>Some mem_size\<close> when the pointer is non-null, \<open>tensor_data\<close> tells whether the
  \<open>unique_ptr\<close> holds a buffer. The \<open>std::map\<close> fields \<open>tensors\<close> and
  \<open>tensor_types\<close> are association lists updated with \<open>AList.update\<close>.
\<close>

record RealTensorModel =
  path :: string
  file_size :: nat
  loaded :: bool
  gguf_ctx :: "gguf_context option"
  ggml_ctx :: "nat option"
  n_vocab :: int
  n_embd :: int
  n_head :: int
  n_layer :: int
  n_ctx :: int
  tensors :: "(string \<times> nat) list"
  tensor_types :: "(string \<times> ggml_type) list"
  vocab :: "string list"
  token_to_id :: "string \<rightharpoonup> int"
  id_to_token :: "int \<rightharpoonup> string"
  tensor_data :: bool
  tensor_data_size :: nat

definition new_RealTensorModel :: RealTensorModel where
  "new_RealTensorModel =
     \<lparr>path = [], file_size = 0, loaded = False, gguf_ctx = None, ggml_ctx = None,
      n_vocab = 0, n_embd = 0, n_head = 0, n_layer = 0, n_ctx = 2048,
      tensors = [], tensor_types = [], vocab = [],
      token_to_id = Map.empty, id_to_token = Map.empty,
      tensor_data = False, tensor_data_size = 0\<rparr>"

section \<open>Tokenizer\<close>

text \<open>
  \<open>std::isalnum\<close> and \<open>std::tolower\<close> in the C locale of the platform: ASCII
  digits and letters only.
\<close>

definition isalnum :: "char \<Rightarrow> bool" where
  "isalnum c =
     (let n = (of_char c :: nat)
      in (48 \<le> n \<and> n \<le> 57) \<or> (65 \<le> n \<and> n \<le> 90) \<or> (97 \<le> n \<and> n \<le> 122))"

definition tolower :: "char \<Rightarrow> char" where
  "tolower c =
     (let n = (of_char c :: nat)
      in if 65 \<le> n \<and> n \<le> 90 then char_of (n + 32) else c)"

text \<open>
  The inner \<open>for\<close> loop of \<open>tokenizeSubword\<close>: prefix lengths from \<open>len\<close> down
  to 1, stopping at the first prefix found in \<open>token_to_id\<close>; the result is the
  length and the id found, or \<open>None\<close> when \<open>found_match\<close> stays false.
\<close>

fun find_prefix :: "(string \<rightharpoonup> int) \<Rightarrow> string \<Rightarrow> nat \<Rightarrow> (nat \<times> int) option" where
  "find_prefix t remaining 0 = None"
| "find_prefix t remaining (Suc l) =
     (case t (take (Suc l) remaining) of
        Some i \<Rightarrow> Some (Suc l, i)
      | None \<Rightarrow> find_prefix t remaining l)"

lemma find_prefix_range:
  "find_prefix t remaining n = Some (l, i) \<Longrightarrow> 1 \<le> l \<and> l \<le> n"
  by (induction n) (auto split: option.splits)

text \<open>
  The \<open>while (!remaining.empty())\<close> loop, with the token vector as an accumulator
  (\<open>push_back\<close> appends).
\<close>

function subword_loop :: "RealTensorModel \<Rightarrow> string \<Rightarrow> int list \<Rightarrow> int list" where
  "subword_loop m remaining tokens =
     (if remaining = [] then tokens
      else case find_prefix (token_to_id m) remaining (min (length remaining) 10) of
             None \<Rightarrow> tokens @ [1]
           | Some (len, i) \<Rightarrow> subword_loop m (drop len remaining) (tokens @ [i]))"
  by pat_completeness auto
termination
proof (relation "measure (\<lambda>(m, remaining, tokens). length remaining)")
  show "wf (measure (\<lambda>(m, remaining, tokens). length remaining))" by simp
next
  fix m :: RealTensorModel and remaining :: string and tokens :: "int list"
    and x2 :: "nat \<times> int" and len :: nat and i :: int
  assume ne: "remaining \<noteq> []"
    and f: "find_prefix (token_to_id m) remaining (min (length remaining) 10) = Some x2"
    and x2: "(len, i) = x2"
  from f x2 have "1 \<le> len" using find_prefix_range by metis
  with ne show "((m, drop len remaining, tokens @ [i]), (m, remaining, tokens))
                  \<in> measure (\<lambda>(m, remaining, tokens). length remaining)"
    by (cases remaining) auto
qed

declare subword_loop.simps [simp del]

definition tokenizeSubword :: "string \<Rightarrow> RealTensorModel \<Rightarrow> int list" where
  "tokenizeSubword word m = subword_loop m word []"

text \<open>
  The tokens pushed for an accumulated word: the exact match, else the subword fallback.
\<close>

definition word_tokens :: "RealTensorModel \<Rightarrow> string \<Rightarrow> int list" where
  "word_tokens m current_word =
     (case token_to_id m current_word of
        Some i \<Rightarrow> [i]
      | None \<Rightarrow> tokenizeSubword current_word m)"

text \<open>
  One iteration of the character loop of \<open>tokenizeAdvanced\<close> over the state
  \<open>(tokens, current_word, in_word)\<close>.
\<close>

definition is_space :: "char \<Rightarrow> bool" where
  "is_space c = (c = CHR '' '' \<or> c = CHR 0x09 \<or> c = CHR 0x0A)"

definition is_punct :: "char \<Rightarrow> bool" where
  "is_punct c =
     (c = CHR ''.'' \<or> c = CHR '','' \<or> c = CHR ''!'' \<or> c = CHR ''?''
      \<or> c = CHR '':'' \<or> c = CHR '';'')"

definition tokenize_step ::
  "RealTensorModel \<Rightarrow> char \<Rightarrow> int list \<times> string \<times> bool \<Rightarrow> int list \<times> string \<times> bool" where
  "tokenize_step m c st =
     (case st of (tokens, current_word, in_word) \<Rightarrow>
        if isalnum c \<or> c = CHR ''_''
        then (tokens, current_word @ [tolower c], True)
        else
          let flush = in_word \<and> current_word \<noteq> [];
              tokens1 = (if flush then tokens @ word_tokens m current_word else tokens);
              current_word1 = (if flush then [] else current_word);
              in_word1 = (if flush then False else in_word);
              tokens2 =
                (if is_space c then tokens1
                 else if is_punct c
                 then tokens1 @ [case token_to_id m [c] of Some i \<Rightarrow> i | None \<Rightarrow> 1]
                 else tokens1)
          in (tokens2, current_word1, in_word1))"

primrec tokenize_chars ::
  "RealTensorModel \<Rightarrow> string \<Rightarrow> int list \<times> string \<times> bool \<Rightarrow> int list \<times> string \<times> bool" where
  "tokenize_chars m [] st = st"
| "tokenize_chars m (c # cs) st = tokenize_chars m cs (tokenize_step m c st)"

definition tokenizeAdvanced :: "string \<Rightarrow> RealTensorModel \<Rightarrow> int list" where
  "tokenizeAdvanced text m =
     (case tokenize_chars m text ([2], [], False) of
        (tokens, current_word, in_word) \<Rightarrow>
          if in_word \<and> current_word \<noteq> [] then tokens @ word_tokens m current_word
          else tokens)"


text \<open>
  The specification's description of the subword fallback, stated on its own: the known
  prefixes of a word are the prefixes of length 1 to 10 (and at most the word's length)
  that have an entry in the string-to-id map; the fallback takes the longest of them.
\<close>

definition known_prefix_lengths :: "(string \<rightharpoonup> int) \<Rightarrow> string \<Rightarrow> nat set" where
  "known_prefix_lengths t w = {l \<in> {1..min (length w) 10}. t (take l w) \<noteq> None}"

definition vocab_abc :: RealTensorModel where
  "vocab_abc =
     new_RealTensorModel\<lparr>token_to_id := [''ab'' \<mapsto> 5, ''a'' \<mapsto> 6, ''c'' \<mapsto> 7]\<rparr>"


section \<open>Inference contexts and the global registries\<close>

text \<open>
  \<open>struct RealInferenceContext\<close>. The pointer \<open>model\<close> is represented by the
  handle under which the model it points to is registered in \<open>models\<close>: a
  \<open>RealTensorModel\<close> object is registered under exactly one handle, a context is only
  created from a registered model, and no operation removes a model while a context that
  points to it stays registered. The null pointer is the handle 0, which \<open>next_id\<close>
  never issues. \<open>work_ctx\<close> and \<open>work_buffer\<close> tell whether the pointer is
  non-null. The modelled operations only clear and measure the \<open>float\<close> vectors
  \<open>embeddings\<close> and \<open>logits\<close> of a context; their elements are represented by
  real numbers.
\<close>

record RealInferenceContext =
  model :: int
  ctx_size :: int
  initialized :: bool
  input_tokens :: "int list"
  embeddings :: "real list"
  logits :: "real list"
  generated_tokens :: "int list"
  full_context_tokens :: "int list"
  is_streaming :: bool
  max_tokens_to_generate :: int
  tokens_generated :: int
  work_ctx :: bool
  work_buffer :: bool
  work_buffer_size :: nat

definition new_RealInferenceContext :: RealInferenceContext where
  "new_RealInferenceContext =
     \<lparr>model = 0, ctx_size = 2048, initialized = False, input_tokens = [],
      embeddings = [], logits = [], generated_tokens = [], full_context_tokens = [],
      is_streaming = False, max_tokens_to_generate = 0, tokens_generated = 0,
      work_ctx = False, work_buffer = False, work_buffer_size = 0\<rparr>"

text \<open>
  \<open>RealInferenceContext::getMemoryUsage\<close>, with \<open>sizeof(int) = sizeof(float) = 4\<close>.
\<close>

definition RealInferenceContext_getMemoryUsage :: "RealInferenceContext \<Rightarrow> nat" where
  "RealInferenceContext_getMemoryUsage c =
     work_buffer_size c
     + length (input_tokens c) * 4
     + length (embeddings c) * 4
     + length (logits c) * 4
     + length (generated_tokens c) * 4
     + length (full_context_tokens c) * 4"

text \<open>
  The process-wide registries \<open>models\<close> and \<open>contexts\<close> and the counter
  \<open>next_id\<close>. A \<open>std::map\<close> keyed by handle is an association list; the registries
  only ever hold non-null pointers, so an entry is the object itself.
\<close>

record bridge_state =
  models :: "(int \<times> RealTensorModel) list"
  contexts :: "(int \<times> RealInferenceContext) list"
  next_id :: int

definition initial_state :: bridge_state where
  "initial_state = \<lparr>models = [], contexts = [], next_id = 1\<rparr>"

section \<open>Memory governor\<close>

text \<open>
  \<open>getTotalMemoryUsage\<close>. The sum is taken in the natural numbers: every summand is
  the size of a live allocation of the process (the tensor arena, the work buffer, the
  token vectors), so the \<open>size_t\<close> sum of a running process cannot wrap.
\<close>

definition getTotalMemoryUsage :: "bridge_state \<Rightarrow> nat" where
  "getTotalMemoryUsage s =
     sum_list (map (\<lambda>pair. tensor_data_size (snd pair)) (models s))
     + sum_list (map (\<lambda>pair. RealInferenceContext_getMemoryUsage (snd pair)) (contexts s))"

definition MAX_MEMORY_LIMIT :: nat where
  "MAX_MEMORY_LIMIT = 512 * 1024 * 1024"

definition model_corrupted :: "RealTensorModel \<Rightarrow> bool" where
  "model_corrupted m = (loaded m \<and> (ggml_ctx m = None \<or> \<not> tensor_data m))"

definition checkMemoryHealth :: "bridge_state \<Rightarrow> bool" where
  "checkMemoryHealth s =
     (if getTotalMemoryUsage s > MAX_MEMORY_LIMIT then False
      else if list_ex (\<lambda>pair. model_corrupted (snd pair)) (models s) then False
      else True)"

text \<open>
  The second loop of \<open>forceMemoryCleanup\<close> on one remaining context: the embeddings
  and logits are cleared, a running context of more than 1024 tokens keeps its last 512.
\<close>

definition trim_context :: "RealInferenceContext \<Rightarrow> RealInferenceContext" where
  "trim_context c =
     c\<lparr>embeddings := [], logits := [],
       full_context_tokens :=
         (if length (full_context_tokens c) > 1024
          then drop (length (full_context_tokens c) - 512) (full_context_tokens c)
          else full_context_tokens c)\<rparr>"

definition forceMemoryCleanup :: "bridge_state \<Rightarrow> bridge_state" where
  "forceMemoryCleanup s =
     s\<lparr>contexts :=
         map (\<lambda>pair. (fst pair, trim_context (snd pair)))
           (filter (\<lambda>pair. is_streaming (snd pair)) (contexts s))\<rparr>"

text \<open>
  The search for the greatest handle in \<open>recoverFromMemoryError\<close>, starting from 0.
\<close>

definition most_recent_model :: "(int \<times> RealTensorModel) list \<Rightarrow> int" where
  "most_recent_model ms = fold (\<lambda>pair acc. if fst pair > acc then fst pair else acc) ms 0"

definition recoverFromMemoryError :: "bridge_state \<Rightarrow> bool \<times> bridge_state" where
  "recoverFromMemoryError s =
     (let s1 = forceMemoryCleanup s
      in if checkMemoryHealth s1 then (True, s1)
         else
           let keep = most_recent_model (models s1);
               s2 = s1\<lparr>models := filter (\<lambda>pair. fst pair = keep) (models s1),
                       contexts := []\<rparr>
           in (checkMemoryHealth s2, s2))"


definition isMemoryHealthy :: "bridge_state \<Rightarrow> bool" where
  "isMemoryHealthy s = checkMemoryHealth s"


definition recoverFromError :: "bridge_state \<Rightarrow> bool \<times> bridge_state" where
  "recoverFromError s = recoverFromMemoryError s"

text \<open>
  \<open>freeModel\<close>: an unknown handle is only logged; a model that some registered context
  points to is kept; otherwise the entry is erased. \<open>freeContext\<close> erases the entry.
\<close>

definition freeModel :: "bridge_state \<Rightarrow> int \<Rightarrow> bridge_state" where
  "freeModel s model_id =
     (case map_of (models s) model_id of
        None \<Rightarrow> s
      | Some m \<Rightarrow>
          if list_ex (\<lambda>ctx_pair. model (snd ctx_pair) = model_id) (contexts s) then s
          else s\<lparr>models := AList.delete model_id (models s)\<rparr>)"

definition freeContext :: "bridge_state \<Rightarrow> int \<Rightarrow> bridge_state" where
  "freeContext s context_id = s\<lparr>contexts := AList.delete context_id (contexts s)\<rparr>"

text \<open>
  What \<open>forceMemoryCleanup\<close> leaves of a streaming context, in bytes: the work buffer
  and four bytes for each input token, each generated token and each token of the running
  context, the running context counted as 512 tokens when it is longer than 1024.
\<close>

definition retained_bytes :: "RealInferenceContext \<Rightarrow> nat" where
  "retained_bytes c =
     work_buffer_size c
     + length (input_tokens c) * 4
     + length (generated_tokens c) * 4
     + (if length (full_context_tokens c) > 1024 then 512
        else length (full_context_tokens c)) * 4"



text \<open>
  Example states: a loaded model with an arena of \<open>n\<close> bytes, an idle context of a
  model with the 16 MB work buffer of \<open>createContext\<close>, and the registries after one
  load of a model with the full 32 MB arena, one \<open>createContext\<close> and 15 more loads.
\<close>

definition arena_model :: "nat \<Rightarrow> RealTensorModel" where
  "arena_model n =
     new_RealTensorModel\<lparr>loaded := True, ggml_ctx := Some n, tensor_data := True,
       tensor_data_size := n,
       tensors := [(''token_embd.weight'', 64), (''output.weight'', 32)]\<rparr>"

definition idle_context :: "int \<Rightarrow> RealInferenceContext" where
  "idle_context model_id =
     new_RealInferenceContext\<lparr>model := model_id, initialized := True, work_ctx := True,
       work_buffer := True, work_buffer_size := 16 * 1024 * 1024\<rparr>"

definition full_arena_models :: "int list \<Rightarrow> (int \<times> RealTensorModel) list" where
  "full_arena_models ids = map (\<lambda>k. (k, arena_model (32 * 1024 * 1024))) ids"

definition state_16_models :: bridge_state where
  "state_16_models =
     \<lparr>models = full_arena_models [1, 3, 4, 5, 6, 7, 8, 9, 10, 11, 12, 13, 14, 15, 16, 17],
      contexts = [(2, idle_context 1)], next_id = 18\<rparr>"

section \<open>Model loading\<close>

text \<open>\<open>std::to_string\<close> on a non-negative index, and the placeholder token name.\<close>

fun to_string :: "nat \<Rightarrow> string" where
  "to_string n =
     (if n < 10 then [char_of (48 + n)]
      else to_string (n div 10) @ [char_of (48 + n mod 10)])"

declare to_string.simps [simp del]

definition placeholder_token :: "nat \<Rightarrow> string" where
  "placeholder_token i = ''<token_'' @ to_string i @ ''>''"

text \<open>
  The three statements that enter a token into the vocabulary:
  \<open>vocab.push_back(token); token_to_id[token] = i; id_to_token[i] = token\<close>.
\<close>

definition add_token :: "string \<Rightarrow> int \<Rightarrow> RealTensorModel \<Rightarrow> RealTensorModel" where
  "add_token token i m =
     m\<lparr>vocab := vocab m @ [token],
       token_to_id := (token_to_id m)(token \<mapsto> i),
       id_to_token := (id_to_token m)(i \<mapsto> token)\<rparr>"

text \<open>
  The token taken from entry \<open>i\<close> of the \<open>tokenizer.ggml.tokens\<close> array: the string
  itself, or the placeholder when the entry is null, empty or longer than 100 characters.
\<close>

definition array_token :: "string option list \<Rightarrow> nat \<Rightarrow> string" where
  "array_token arr i =
     (case arr ! i of
        Some token_data \<Rightarrow>
          if length token_data > 0
          then (if length token_data > 100 then placeholder_token i else token_data)
          else placeholder_token i
      | None \<Rightarrow> placeholder_token i)"

definition basic_tokens :: "string list" where
  "basic_tokens =
     [''<pad>'', ''<unk>'', ''<s>'', ''</s>'',
      ''the'', ''a'', ''an'', ''and'', ''or'', ''but'', ''in'', ''on'', ''at'', ''to'',
      ''for'', ''of'', ''with'',
      ''I'', ''you'', ''he'', ''she'', ''it'', ''we'', ''they'', ''am'', ''is'', ''are'',
      ''was'', ''were'',
      ''hello'', ''hi'', ''how'', ''what'', ''when'', ''where'', ''why'', ''who'', ''can'',
      ''will'', ''would'',
      ''good'', ''bad'', ''yes'', ''no'', ''please'', ''thank'', ''help'', ''time'', ''day'',
      ''night'',
      ''tensor'', ''model'', ''phase'', ''ai'', ''neural'', ''network'', ''gguf'', ''llama'',
      ''chat'',
      ''real'', ''data'', ''loading'', ''inference'', ''matrix'', ''attention'', ''layer'',
      ''embedding'']"

text \<open>
  The vocabulary part of \<open>loadRealTensorModel\<close>, after the three maps are cleared:
  the array of the container when it has one, else the basic tokens followed by
  placeholders up to \<open>n_vocab\<close>.
\<close>

definition load_vocabulary :: "gguf_context \<Rightarrow> RealTensorModel \<Rightarrow> RealTensorModel" where
  "load_vocabulary g m0 =
     (let m = m0\<lparr>vocab := [], token_to_id := Map.empty, id_to_token := Map.empty\<rparr>
      in case tokenizer_tokens g of
           Some arr \<Rightarrow>
             fold (\<lambda>i. add_token (array_token arr i) (int i))
               [0 ..< min (length arr) (nat (n_vocab m))] m
         | None \<Rightarrow>
             fold (\<lambda>i. add_token (placeholder_token i) (int i))
               [length basic_tokens ..< nat (n_vocab m)]
               (fold (\<lambda>i. add_token (basic_tokens ! i) (int i))
                  [0 ..< length basic_tokens] m))"

text \<open>
  The element count chosen by \<open>loadTensorWithQuantization\<close> from the quantization kind
  and the byte size of the tensor.
\<close>

definition element_count :: "ggml_type \<Rightarrow> nat \<Rightarrow> nat" where
  "element_count tensor_type tensor_size =
     (if tensor_type = GGML_TYPE_F32 then min (tensor_size div 4) 256
      else if tensor_type = GGML_TYPE_F16 then min (tensor_size div 2) 512
      else if tensor_type = GGML_TYPE_Q4_K \<or> tensor_type = GGML_TYPE_Q4_0
              \<or> tensor_type = GGML_TYPE_Q6_K
      then min 128 (tensor_size div 8)
      else min tensor_size 1024)"

text \<open>
  \<open>loadTensorWithQuantization\<close>. The argument \<open>created\<close> is the outcome of
  \<open>ggml_new_tensor_1d\<close> (false for a null pointer); the kind is recorded before the
  tensor is created.
\<close>

definition loadTensorWithQuantization ::
  "RealTensorModel \<Rightarrow> string \<Rightarrow> ggml_type \<Rightarrow> nat \<Rightarrow> bool \<Rightarrow> bool \<times> RealTensorModel" where
  "loadTensorWithQuantization m tensor_name tensor_type tensor_size created =
     (let m1 = m\<lparr>tensor_types := AList.update tensor_name tensor_type (tensor_types m)\<rparr>
      in if \<not> created then (False, m1)
         else (True, m1\<lparr>tensors :=
                 AList.update tensor_name (element_count tensor_type tensor_size)
                   (tensors m1)\<rparr>))"

text \<open>\<open>name_str.find(sub) != std::string::npos\<close>.\<close>

primrec str_contains :: "string \<Rightarrow> string \<Rightarrow> bool" where
  "str_contains [] sub = (sub = [])"
| "str_contains (c # cs) sub = (take (length sub) (c # cs) = sub \<or> str_contains cs sub)"

definition essential_tensor :: "string \<Rightarrow> bool" where
  "essential_tensor name_str =
     (str_contains name_str ''token_embd'' \<or> str_contains name_str ''output.weight'')"

text \<open>
  The tensor loop of \<open>loadRealTensorModel\<close> over the tensor directory. The state is
  the model, \<open>tensors_loaded\<close> and the number of \<open>ggml_new_tensor_1d\<close> calls made so
  far; \<open>created k\<close> is the outcome of call number \<open>k\<close>. The loop ends when three
  tensors are loaded and at the first tensor that cannot be created.
\<close>

primrec load_tensors ::
  "(nat \<Rightarrow> bool) \<Rightarrow> (string \<times> ggml_type \<times> nat) list \<Rightarrow> RealTensorModel \<times> nat \<times> nat
     \<Rightarrow> RealTensorModel \<times> nat \<times> nat" where
  "load_tensors created [] st = st"
| "load_tensors created (info # rest) st =
     (case st of (m, tensors_loaded, calls) \<Rightarrow>
        if \<not> tensors_loaded < 3 then st
        else case info of (tensor_name, tensor_type, tensor_size) \<Rightarrow>
          if essential_tensor tensor_name
          then (case loadTensorWithQuantization m tensor_name tensor_type tensor_size
                       (created calls) of
                  (ok, m1) \<Rightarrow>
                    if ok then load_tensors created rest (m1, tensors_loaded + 1, calls + 1)
                    else (m1, tensors_loaded, calls + 1))
          else load_tensors created rest st)"

text \<open>
  The demo tensors created when no tensor was loaded: 64 and 32 elements, each entered
  only when \<open>ggml_new_tensor_1d\<close> gives a tensor.
\<close>

definition demo_tensors :: "(nat \<Rightarrow> bool) \<Rightarrow> RealTensorModel \<times> nat \<times> nat \<Rightarrow> RealTensorModel" where
  "demo_tensors created st =
     (case st of (m, tensors_loaded, calls) \<Rightarrow>
        if tensors_loaded = 0
        then
          let m1 = (if created calls
                    then m\<lparr>tensors := AList.update ''token_embd.weight'' 64 (tensors m)\<rparr>
                    else m);
              m2 = (if created (calls + 1)
                    then m1\<lparr>tensors := AList.update ''output.weight'' 32 (tensors m1)\<rparr>
                    else m1)
          in m2
        else m)"

definition u32_or :: "gguf_context \<Rightarrow> string \<Rightarrow> int \<Rightarrow> int" where
  "u32_or g key dflt = (case kv_u32 g key of Some v \<Rightarrow> uint v | None \<Rightarrow> dflt)"

definition max_tensor_size :: nat where
  "max_tensor_size = 32 * 1024 * 1024"

text \<open>
  \<open>loadRealTensorModel\<close>. \<open>parsed\<close> is what \<open>gguf_init_from_file\<close> returns for
  the model's path, \<open>init_ok\<close> the outcome of \<open>ggml_init\<close>, \<open>created\<close> the outcomes
  of the \<open>ggml_new_tensor_1d\<close> calls in order. The sum of the tensor sizes is a
  \<open>size_t\<close> sum of values read from the file and wraps at \<open>2 ^ 64\<close>.
\<close>

definition loadRealTensorModel ::
  "gguf_context option \<Rightarrow> bool \<Rightarrow> (nat \<Rightarrow> bool) \<Rightarrow> RealTensorModel \<Rightarrow> bool \<times> RealTensorModel" where
  "loadRealTensorModel parsed init_ok created m0 =
     (case parsed of
        None \<Rightarrow> (False, m0)
      | Some g \<Rightarrow>
          let m1 = m0\<lparr>gguf_ctx := Some g,
                     n_vocab := u32_or g ''llama.vocab_size'' 32000,
                     n_embd := u32_or g ''llama.embedding_length'' 2048,
                     n_head := u32_or g ''llama.attention.head_count'' 32,
                     n_layer := u32_or g ''llama.block_count'' 22,
                     n_ctx := u32_or g ''llama.context_length'' 2048\<rparr>;
              m2 = load_vocabulary g m1;
              total_tensor_size =
                sum_list (map (\<lambda>info. snd (snd info)) (tensor_infos g)) mod 2 ^ 64;
              m3 = m2\<lparr>tensor_data_size :=
                         (if total_tensor_size > max_tensor_size then max_tensor_size
                          else total_tensor_size),
                       tensor_data := True\<rparr>
          in if \<not> init_ok then (False, m3)
             else
               let m4 = m3\<lparr>ggml_ctx := Some (tensor_data_size m3)\<rparr>;
                   m5 = demo_tensors created (load_tensors created (tensor_infos g) (m4, 0, 0))
               in (True, m5\<lparr>loaded := True\<rparr>))"

text \<open>
  What one \<open>loadModel\<close> call meets outside the bridge: the path string handed over by
  the caller (\<open>None\<close> when \<open>GetStringUTFChars\<close> fails), whether the file opens,
  whether seeking to its end fails, the position \<open>tellg\<close> reports there, what the GGUF
  reader makes of the file, and the outcomes of \<open>ggml_init\<close> and
  \<open>ggml_new_tensor_1d\<close> in the first load attempt (index 0) and in the retry (index 1).
  Exceptions of the C++ runtime (\<open>std::bad_alloc\<close>) are not modelled.
\<close>

record load_env =
  utf_path :: "string option"
  file_opens :: bool
  seekg_fails :: bool
  tellg :: nat
  gguf_init_from_file :: "gguf_context option"
  ggml_init_succeeds :: "nat \<Rightarrow> bool"
  new_tensor_succeeds :: "nat \<Rightarrow> nat \<Rightarrow> bool"

definition MAX_MODEL_SIZE :: nat where
  "MAX_MODEL_SIZE = 1024 * 1024 * 1024"

text \<open>
  The end of \<open>loadModel\<close>: validation of the loaded model, then registration under the
  next handle.
\<close>

definition register_model :: "bridge_state \<Rightarrow> RealTensorModel \<Rightarrow> int \<times> bridge_state" where
  "register_model s m =
     (if \<not> loaded m \<or> tensors m = [] then (0, s)
      else (next_id s,
            s\<lparr>models := AList.update (next_id s) m (models s), next_id := next_id s + 1\<rparr>))"

text \<open>
  \<open>loadModel\<close>. In the retry the file size is read from the closed stream:
  \<open>tellg\<close> gives \<open>-1\<close>, stored in the \<open>size_t\<close> field as \<open>2 ^ 64 - 1\<close>.
\<close>

definition loadModel :: "bridge_state \<Rightarrow> load_env \<Rightarrow> int \<times> bridge_state" where
  "loadModel s env =
     (case (if \<not> checkMemoryHealth s then recoverFromMemoryError s else (True, s)) of
        (recovered, s0) \<Rightarrow>
          if \<not> recovered then (0, s0)
          else case utf_path env of
            None \<Rightarrow> (0, s0)
          | Some p \<Rightarrow>
              if \<not> file_opens env then (0, s0)
              else if seekg_fails env then (0, s0)
              else if tellg env \<le> 0 then (0, s0)
              else if tellg env > MAX_MODEL_SIZE then (0, s0)
              else
                case loadRealTensorModel (gguf_init_from_file env) (ggml_init_succeeds env 0)
                       (new_tensor_succeeds env 0)
                       (new_RealTensorModel\<lparr>path := p, file_size := tellg env\<rparr>) of
                  (ok, m) \<Rightarrow>
                    if ok then register_model s0 m
                    else
                      case recoverFromMemoryError s0 of
                        (recovered1, s1) \<Rightarrow>
                          if recovered1
                          then
                            case loadRealTensorModel (gguf_init_from_file env)
                                   (ggml_init_succeeds env 1) (new_tensor_succeeds env 1)
                                   (new_RealTensorModel\<lparr>path := p, file_size := 2 ^ 64 - 1\<rparr>) of
                              (ok1, m1) \<Rightarrow>
                                if ok1 then register_model s1 m1 else (0, s1)
                          else (0, s1))"

text \<open>
  Example containers and environments: a container that stores \<open>llama.vocab_size = 0\<close>
  and one F32 embedding tensor of 4096 bytes, a file that opens and parses with every
  ggml call succeeding, and a path that cannot be opened.
\<close>

definition small_container :: gguf_context where
  "small_container =
     \<lparr>kv_u32 = [''llama.vocab_size'' \<mapsto> 0],
      tokenizer_tokens = Some [],
      tensor_infos = [(''token_embd.weight'', GGML_TYPE_F32, 4096)]\<rparr>"

definition good_file :: "gguf_context \<Rightarrow> load_env" where
  "good_file g =
     \<lparr>utf_path = Some ''model.gguf'', file_opens = True, seekg_fails = False,
      tellg = 8192, gguf_init_from_file = Some g,
      ggml_init_succeeds = (\<lambda>attempt. True),
      new_tensor_succeeds = (\<lambda>attempt call. True)\<rparr>"

definition missing_file :: load_env where
  "missing_file =
     \<lparr>utf_path = Some ''missing.gguf'', file_opens = False, seekg_fails = False,
      tellg = 0, gguf_init_from_file = None,
      ggml_init_succeeds = (\<lambda>attempt. True),
      new_tensor_succeeds = (\<lambda>attempt call. True)\<rparr>"

text \<open>
  A container with 64 MB of tensor data and no embedding or output tensor, the model that
  \<open>loadRealTensorModel\<close> makes of it, and the state reached from the initial state by
  17 successful \<open>loadModel\<close> calls on it: the memory check before each load passes,
  the last time at exactly 512 MB.
\<close>

definition large_container :: gguf_context where
  "large_container =
     \<lparr>kv_u32 = [''llama.vocab_size'' \<mapsto> 4],
      tokenizer_tokens = Some [Some ''<pad>'', Some ''<unk>'', Some ''<s>'', Some ''</s>''],
      tensor_infos = [(''blk.0.attn_q.weight'', GGML_TYPE_Q4_K, 64 * 1024 * 1024)]\<rparr>"

definition large_model :: RealTensorModel where
  "large_model =
     snd (loadRealTensorModel (Some large_container) True (\<lambda>call. True)
            (new_RealTensorModel\<lparr>path := ''model.gguf'', file_size := 8192\<rparr>))"

definition load_all :: "load_env list \<Rightarrow> bridge_state \<Rightarrow> bridge_state" where
  "load_all envs s = fold (\<lambda>env s. snd (loadModel s env)) envs s"

definition state_17_models :: bridge_state where
  "state_17_models = load_all (replicate 17 (good_file large_container)) initial_state"

text \<open>
  Notions used to state what a successful load leaves behind: every entry of a tensor
  map comes from the tensor directory with the element count of its declared kind; the
  two demo tensors; the arena size of a container (\<open>tensor_data_size\<close> after a load).
\<close>

definition tensors_from :: "(string \<times> ggml_type \<times> nat) list \<Rightarrow> (string \<times> nat) list \<Rightarrow> bool" where
  "tensors_from infos ts =
     (\<forall>entry \<in> set ts. \<exists>ty sz. (fst entry, ty, sz) \<in> set infos
         \<and> snd entry = element_count ty sz)"

definition demo_entries :: "(string \<times> nat) set" where
  "demo_entries = {(''token_embd.weight'', 64), (''output.weight'', 32)}"


text \<open>A state within the memory ceiling: one model with a 4096-byte arena, one idle context.\<close>

definition state_one_model :: bridge_state where
  "state_one_model =
     \<lparr>models = [(1, arena_model 4096)], contexts = [(2, idle_context 1)], next_id = 3\<rparr>"

section \<open>Forward pass\<close>

text \<open>
  Outcomes that are not a return value: undefined behaviour of the C++ code (a division
  by zero, a signed overflow, a dereferenced pointer to a deleted object, a call of
  \<open>std::sort\<close> with a comparison that is not a strict weak ordering of the sorted
  values) and the exception \<open>std::length_error\<close> thrown by a vector constructor for a
  negative size.
\<close>

datatype fault = DivideByZero | SignedOverflow | UseAfterFree | LengthError | UnorderedSort

text \<open>
  The conversion of a 64-bit value to \<open>int\<close>, the range of \<open>int\<close>, and the test
  \<open>idx < v.size()\<close> of an \<open>int\<close> index against a vector size (a negative index
  converts to a huge unsigned value and fails the test).
\<close>

definition to_int32 :: "int \<Rightarrow> int" where
  "to_int32 x = sint (word_of_int x :: 32 word)"

definition in_int_range :: "int \<Rightarrow> bool" where
  "in_int_range x = (- (2 ^ 31) \<le> x \<and> x < 2 ^ 31)"

definition index_below :: "int \<Rightarrow> 'a list \<Rightarrow> bool" where
  "index_below idx v = (0 \<le> idx \<and> nat idx < length v)"

text \<open>
  \<open>rand()\<close>: the generator is the sequence of the values it will return, each between
  0 and \<open>RAND_MAX\<close>; a call returns the head and leaves the rest.
\<close>

type_synonym rand_state = "nat \<Rightarrow> int"

definition RAND_MAX :: int where
  "RAND_MAX = 2147483647"

definition rand_skip :: "nat \<Rightarrow> rand_state \<Rightarrow> rand_state" where
  "rand_skip n r = (\<lambda>k. r (k + n))"

text \<open>
  The type \<open>float\<close> and the operations the bridge applies to it. \<open>'f\<close> is the set of
  \<open>float\<close> values of the platform. \<open>float_of\<close> gives the value of a literal such as
  \<open>0.1f\<close> and of a conversion \<open>(float)n\<close>; \<open>fadd\<close>, \<open>fsub\<close>, \<open>fmul\<close> and
  \<open>fdiv\<close> are \<open>+\<close>, \<open>-\<close>, \<open>*\<close> and \<open>/\<close> on two \<open>float\<close> operands;
  \<open>fless\<close> and \<open>fle\<close> are \<open><\<close> and \<open><=\<close> (\<open>a > b\<close> is \<open>b < a\<close>);
  \<open>sinf\<close>, \<open>sqrtf\<close> and \<open>expf\<close> are the functions of these names.
  \<open>sin_weight x\<close> is the value that \<open>0.1f * sin(x)\<close> stores in a \<open>float\<close>
  variable and \<open>exp_stored x\<close> the value that \<open>exp(x)\<close> stores in a \<open>float\<close>
  vector element, for a \<open>float\<close> argument \<open>x\<close>: the header in use decides whether
  these two calls are evaluated in \<open>float\<close> or in \<open>double\<close>.
\<close>

record 'f float_arith =
  float_of :: "real \<Rightarrow> 'f"
  fadd :: "'f \<Rightarrow> 'f \<Rightarrow> 'f"
  fsub :: "'f \<Rightarrow> 'f \<Rightarrow> 'f"
  fmul :: "'f \<Rightarrow> 'f \<Rightarrow> 'f"
  fdiv :: "'f \<Rightarrow> 'f \<Rightarrow> 'f"
  fless :: "'f \<Rightarrow> 'f \<Rightarrow> bool"
  fle :: "'f \<Rightarrow> 'f \<Rightarrow> bool"
  sinf :: "'f \<Rightarrow> 'f"
  sqrtf :: "'f \<Rightarrow> 'f"
  expf :: "'f \<Rightarrow> 'f"
  sin_weight :: "'f \<Rightarrow> 'f"
  exp_stored :: "'f \<Rightarrow> 'f"

definition int_to_float :: "'f float_arith \<Rightarrow> int \<Rightarrow> 'f" where
  "int_to_float fl n = float_of fl (real_of_int n)"

text \<open>
  The arithmetic without rounding, on the real numbers: the interpretation of the
  operations in which the examples are evaluated.
\<close>

definition real_arith :: "real float_arith" where
  "real_arith =
     \<lparr>float_of = (\<lambda>x. x), fadd = (+), fsub = (-), fmul = (*), fdiv = (/),
      fless = (<), fle = (\<le>), sinf = sin, sqrtf = sqrt, expf = exp,
      sin_weight = (\<lambda>x. 0.1 * sin x), exp_stored = exp\<rparr>"

text \<open>
  The embedding of token \<open>token_id\<close> at position \<open>i\<close>, component \<open>j\<close>: the
  lookup value and the positional encoding added to it.
\<close>

definition embedding_value :: "'f float_arith \<Rightarrow> int \<Rightarrow> int \<Rightarrow> int \<Rightarrow> int \<Rightarrow> int \<Rightarrow> 'f" where
  "embedding_value fl vocab_size seq_len token_id i j =
     (let embed_val = fsub fl (fmul fl (fdiv fl (int_to_float fl (token_id + j))
                                              (int_to_float fl vocab_size))
                                     (float_of fl 2))
                        (float_of fl 1);
          pos_val = fdiv fl (int_to_float fl i) (int_to_float fl seq_len)
      in fadd fl embed_val
           (fmul fl (float_of fl 0.1)
              (sinf fl (fmul fl (fmul fl pos_val (float_of fl 3.14159))
                          (int_to_float fl (j + 1))))))"

definition token_embeddings ::
  "'f float_arith \<Rightarrow> RealTensorModel \<Rightarrow> int list \<Rightarrow> int \<Rightarrow> int \<Rightarrow> 'f list" where
  "token_embeddings fl m tokens seq_len d_model =
     concat (map (\<lambda>i. map (\<lambda>j. embedding_value fl (n_vocab m) seq_len (tokens ! nat i) i j)
                          [0 .. d_model - 1])
               [0 .. seq_len - 1])"

text \<open>
  \<open>computeAttention\<close>, one head: the scores \<open>scores[i * seq_len + j]\<close>, their
  row-wise softmax, and the values written to \<open>output\<close>. Every sum is accumulated from
  \<open>0.0f\<close> in the order of its loop.
\<close>

definition attention_score ::
  "'f float_arith \<Rightarrow> 'f list \<Rightarrow> int \<Rightarrow> int \<Rightarrow> int \<Rightarrow> int \<Rightarrow> int \<Rightarrow> 'f" where
  "attention_score fl input d_model head_offset d_head i j =
     fdiv fl
       (fold (\<lambda>k score. let idx_i = i * d_model + head_offset + k;
                            idx_j = j * d_model + head_offset + k
                        in if index_below idx_i input \<and> index_below idx_j input
                           then fadd fl score (fmul fl (input ! nat idx_i) (input ! nat idx_j))
                           else score)
          [0 .. d_head - 1] (float_of fl 0))
       (sqrtf fl (int_to_float fl d_head))"

definition softmax_row :: "'f float_arith \<Rightarrow> 'f list \<Rightarrow> 'f list" where
  "softmax_row fl row =
     (let exps = map (expf fl) row;
          sum = fold (\<lambda>e sum. fadd fl sum e) exps (float_of fl 0)
      in map (\<lambda>e. fdiv fl e sum) exps)"

definition head_scores ::
  "'f float_arith \<Rightarrow> 'f list \<Rightarrow> int \<Rightarrow> int \<Rightarrow> int \<Rightarrow> int \<Rightarrow> 'f list" where
  "head_scores fl input seq_len d_model head_offset d_head =
     concat (map (\<lambda>i. softmax_row fl
                         (map (\<lambda>j. attention_score fl input d_model head_offset d_head i j)
                            [0 .. seq_len - 1]))
               [0 .. seq_len - 1])"

definition attention_value ::
  "'f float_arith \<Rightarrow> 'f list \<Rightarrow> 'f list \<Rightarrow> int \<Rightarrow> int \<Rightarrow> int \<Rightarrow> int \<Rightarrow> int \<Rightarrow> 'f" where
  "attention_value fl input scores seq_len d_model head_offset i k =
     fold (\<lambda>j v. let value_idx = j * d_model + head_offset + k
                 in if index_below value_idx input
                    then fadd fl v (fmul fl (scores ! nat (i * seq_len + j)) (input ! nat value_idx))
                    else v)
       [0 .. seq_len - 1] (float_of fl 0)"

definition write_output :: "int \<Rightarrow> 'f \<Rightarrow> 'f list \<Rightarrow> 'f list" where
  "write_output output_idx v output =
     (if index_below output_idx output then output[nat output_idx := v] else output)"

definition attention_head ::
  "'f float_arith \<Rightarrow> 'f list \<Rightarrow> int \<Rightarrow> int \<Rightarrow> int \<Rightarrow> int \<Rightarrow> 'f list \<Rightarrow> 'f list" where
  "attention_head fl input seq_len d_model d_head h output =
     (let head_offset = h * d_head;
          scores = head_scores fl input seq_len d_model head_offset d_head
      in fold (\<lambda>i. fold (\<lambda>k. write_output (i * d_model + head_offset + k)
                               (attention_value fl input scores seq_len d_model head_offset i k))
                      [0 .. d_head - 1])
           [0 .. seq_len - 1] output)"

text \<open>
  \<open>computeAttention\<close>. \<open>d_model / n_heads\<close> is the truncating division of C++ and is
  undefined for \<open>n_heads = 0\<close> and for the quotient \<open>INT_MIN / -1\<close>; the size \<open>seq_len * seq_len\<close> of the score vector is
  computed in \<open>int\<close> inside the loop over the heads.
\<close>

definition computeAttention ::
  "'f float_arith \<Rightarrow> 'f list \<Rightarrow> RealTensorModel \<Rightarrow> int \<Rightarrow> fault + 'f list" where
  "computeAttention fl input m seq_len =
     (let d_model = to_int32 (n_embd m);
          n_heads = to_int32 (n_head m)
      in if n_heads = 0 then Inl DivideByZero
         else if d_model = - (2 ^ 31) \<and> n_heads = - 1 then Inl SignedOverflow
         else if 0 < n_heads \<and> \<not> in_int_range (seq_len * seq_len) then Inl SignedOverflow
         else Inr (fold (attention_head fl input seq_len d_model (d_model sdiv n_heads))
                     [0 .. n_heads - 1] (replicate (length input) (float_of fl 0))))"

text \<open>
  One iteration of the layer loop of \<open>forwardPass\<close>: attention, residual connection,
  the scaled ReLU feed-forward step and the second residual connection.
\<close>

definition feed_forward :: "'f float_arith \<Rightarrow> 'f \<Rightarrow> 'f" where
  "feed_forward fl a =
     (let scaled = fmul fl a (float_of fl 1.5)
      in fadd fl (if fless fl (float_of fl 0) scaled then scaled else float_of fl 0) a)"

definition transformer_layer ::
  "'f float_arith \<Rightarrow> RealTensorModel \<Rightarrow> int \<Rightarrow> 'f list \<Rightarrow> fault + 'f list" where
  "transformer_layer fl m seq_len layer_input =
     (case computeAttention fl layer_input m seq_len of
        Inl f \<Rightarrow> Inl f
      | Inr attn_output \<Rightarrow>
          Inr (map (feed_forward fl) (map2 (fadd fl) attn_output layer_input)))"

primrec run_layers ::
  "'f float_arith \<Rightarrow> nat \<Rightarrow> RealTensorModel \<Rightarrow> int \<Rightarrow> 'f list \<Rightarrow> fault + 'f list" where
  "run_layers fl 0 m seq_len layer_input = Inr layer_input"
| "run_layers fl (Suc n) m seq_len layer_input =
     (case transformer_layer fl m seq_len layer_input of
        Inl f \<Rightarrow> Inl f
      | Inr ff_output \<Rightarrow> run_layers fl n m seq_len ff_output)"

text \<open>
  The logit of vocabulary id \<open>i\<close>: the weighted sum over the last position, the bias of
  the first 100 ids, and the perturbation drawn with \<open>rand()\<close> (the draw is \<open>r\<close>).
\<close>

definition logit_value :: "'f float_arith \<Rightarrow> 'f list \<Rightarrow> int \<Rightarrow> int \<Rightarrow> int \<Rightarrow> int \<Rightarrow> 'f" where
  "logit_value fl layer_input d_model last_token_offset i r =
     (let weighted =
            fold (\<lambda>j logit. let input_idx = last_token_offset + j
                            in if index_below input_idx layer_input
                               then fadd fl logit
                                      (fmul fl (layer_input ! nat input_idx)
                                         (sin_weight fl
                                            (fadd fl (fmul fl (int_to_float fl i) (float_of fl 0.1))
                                                     (fmul fl (int_to_float fl j) (float_of fl 0.01)))))
                               else logit)
              [0 .. min d_model (int (length layer_input) - last_token_offset) - 1]
              (float_of fl 0);
          biased = (if i < 100 then fadd fl weighted (float_of fl 0.5) else weighted)
      in fadd fl biased
           (fmul fl (fsub fl (fdiv fl (int_to_float fl r) (int_to_float fl RAND_MAX))
                             (float_of fl 0.5))
                    (float_of fl 0.2)))"

text \<open>
  \<open>forwardPass\<close>. The context pointer and its model pointer are dereferenced in the
  registries of the state; the state is returned as the call leaves it. The sizes and
  counters computed in \<open>int\<close> are checked where the code computes them: the embedding
  size \<open>seq_len * d_model\<close> (a negative size makes the vector constructor throw), the
  sum \<open>token_id + j\<close>, the layer counter and the vocabulary counter.
\<close>

definition forwardPass ::
  "'f float_arith \<Rightarrow> int list \<Rightarrow> int \<Rightarrow> bridge_state \<Rightarrow> rand_state
     \<Rightarrow> fault + ('f list \<times> bridge_state \<times> rand_state)" where
  "forwardPass fl tokens context_id s rng =
     (case map_of (contexts s) context_id of
        None \<Rightarrow> Inl UseAfterFree
      | Some context \<Rightarrow>
          case map_of (models s) (model context) of
            None \<Rightarrow> Inl UseAfterFree
          | Some m \<Rightarrow>
              let seq_len = to_int32 (int (length tokens));
                  d_model = to_int32 (n_embd m)
              in if \<not> in_int_range (seq_len * d_model) then Inl SignedOverflow
                 else if seq_len * d_model < 0 then Inl LengthError
                 else if list_ex (\<lambda>token_id. 0 < d_model
                            \<and> \<not> in_int_range (token_id + (d_model - 1))) tokens
                 then Inl SignedOverflow
                 else if \<not> in_int_range ((seq_len - 1) * d_model) \<or> \<not> in_int_range (n_layer m)
                 then Inl SignedOverflow
                 else
                   case run_layers fl (nat (n_layer m)) m seq_len
                          (token_embeddings fl m tokens seq_len d_model) of
                     Inl f \<Rightarrow> Inl f
                   | Inr layer_input \<Rightarrow>
                       if n_vocab m < 0 then Inl LengthError
                       else if \<not> in_int_range (n_vocab m) then Inl SignedOverflow
                       else
                         Inr (map (\<lambda>i. logit_value fl layer_input d_model
                                          ((seq_len - 1) * d_model) i (rng (nat i)))
                                [0 .. n_vocab m - 1],
                              s,
                              rand_skip (nat (n_vocab m)) rng))"

section \<open>Streaming generation\<close>

text \<open>
  \<open>startStreamingInference\<close>, on the context registered under \<open>context_id\<close>.
\<close>

definition startStreamingInference ::
  "bridge_state \<Rightarrow> int \<Rightarrow> string \<Rightarrow> int \<Rightarrow> fault + (bool \<times> bridge_state)" where
  "startStreamingInference s context_id input max_tokens =
     (case map_of (contexts s) context_id of
        None \<Rightarrow> Inl UseAfterFree
      | Some context \<Rightarrow>
          case map_of (models s) (model context) of
            None \<Rightarrow> Inl UseAfterFree
          | Some m \<Rightarrow>
              let context1 = context\<lparr>is_streaming := True,
                                max_tokens_to_generate := max_tokens,
                                tokens_generated := 0,
                                generated_tokens := [],
                                input_tokens := tokenizeAdvanced input m,
                                full_context_tokens := tokenizeAdvanced input m\<rparr>
              in Inr (True, s\<lparr>contexts := AList.update context_id context1 (contexts s)\<rparr>))"

text \<open>
  The sampling part of \<open>generateNextStreamingToken\<close> for a non-empty logits vector.
  Temperature scaling and softmax: \<open>std::max_element\<close> keeps the first of the largest
  elements under \<open><\<close>, and \<open>sum_exp\<close> is accumulated from \<open>0.0f\<close> in index
  order.
\<close>

definition temperature :: "'f float_arith \<Rightarrow> 'f" where
  "temperature fl = float_of fl 0.8"

definition max_element :: "'f float_arith \<Rightarrow> 'f list \<Rightarrow> 'f" where
  "max_element fl xs = fold (\<lambda>x largest. if fless fl largest x then x else largest) (tl xs) (hd xs)"

definition softmax_probs :: "'f float_arith \<Rightarrow> 'f list \<Rightarrow> 'f list" where
  "softmax_probs fl logits0 =
     (let scaled = map (\<lambda>x. fdiv fl x (temperature fl)) logits0;
          max_logit = max_element fl scaled;
          exps = map (\<lambda>x. exp_stored fl (fsub fl x max_logit)) scaled;
          sum_exp = fold (\<lambda>p sum. fadd fl sum p) exps (float_of fl 0)
      in map (\<lambda>p. fdiv fl p sum_exp) exps)"

text \<open>
  The candidates \<open>(probability, id)\<close> pushed to \<open>top_tokens\<close>, and their order after
  \<open>std::sort\<close> with \<open>std::greater<>\<close>, which compares two pairs with \<open>operator>\<close>
  of \<open>std::pair\<close>: \<open>a > b\<close> is \<open>b < a\<close>, the lexicographic comparison built from
  \<open><\<close> on the components. \<open>std::sort\<close> requires the comparison to be a strict weak
  ordering of the values it sorts (irreflexive, transitive, with a transitive
  incomparability) and is undefined otherwise, as it can be when some probabilities
  are NaN. Under this requirement no two candidates are incomparable, since their ids
  differ, so the sorted order is unique: it is the one that sorting by insertion produces.
\<close>

definition candidates :: "'f list \<Rightarrow> ('f \<times> int) list" where
  "candidates probs = zip probs [0 .. int (length probs) - 1]"

definition pair_greater :: "'f float_arith \<Rightarrow> 'f \<times> int \<Rightarrow> 'f \<times> int \<Rightarrow> bool" where
  "pair_greater fl a b =
     (fless fl (fst b) (fst a) \<or> (\<not> fless fl (fst a) (fst b) \<and> snd b < snd a))"

definition strict_weak_ordering :: "('a \<Rightarrow> 'a \<Rightarrow> bool) \<Rightarrow> 'a list \<Rightarrow> bool" where
  "strict_weak_ordering cmp xs =
     (list_all (\<lambda>a. \<not> cmp a a) xs
      \<and> list_all (\<lambda>a. list_all (\<lambda>b. list_all (\<lambda>c.
            \<not> (cmp a b \<and> cmp b c \<and> \<not> cmp a c)
            \<and> \<not> (\<not> cmp a b \<and> \<not> cmp b a \<and> \<not> cmp b c \<and> \<not> cmp c b
                   \<and> (cmp a c \<or> cmp c a))) xs) xs) xs)"

primrec insert_sorted :: "('a \<Rightarrow> 'a \<Rightarrow> bool) \<Rightarrow> 'a \<Rightarrow> 'a list \<Rightarrow> 'a list" where
  "insert_sorted cmp x [] = [x]"
| "insert_sorted cmp x (y # ys) =
     (if cmp y x then y # insert_sorted cmp x ys else x # y # ys)"

definition std_sort :: "('a \<Rightarrow> 'a \<Rightarrow> bool) \<Rightarrow> 'a list \<Rightarrow> 'a list" where
  "std_sort cmp xs = foldr (insert_sorted cmp) xs []"

definition top_tokens :: "'f float_arith \<Rightarrow> 'f list \<Rightarrow> ('f \<times> int) list" where
  "top_tokens fl probs = std_sort (pair_greater fl) (candidates probs)"

definition top_k :: "'f list \<Rightarrow> nat" where
  "top_k probs = min 50 (length probs)"

text \<open>
  The roulette loop over the first \<open>top_k\<close> candidates: each iteration adds the
  probability of its candidate to \<open>cumulative\<close> and tests
  \<open>random_val <= cumulative\<close>; the loop leaves \<open>best_token\<close> as it is when no test
  succeeds. \<open>cumulative_values\<close> lists the values of \<open>cumulative\<close> that the
  iterations over all the given candidates would test, the last being the accumulated
  probability of them all.
\<close>

definition random_value :: "'f float_arith \<Rightarrow> int \<Rightarrow> 'f" where
  "random_value fl r = fdiv fl (int_to_float fl r) (int_to_float fl RAND_MAX)"

primrec roulette :: "'f float_arith \<Rightarrow> 'f \<Rightarrow> 'f \<Rightarrow> ('f \<times> int) list \<Rightarrow> int \<Rightarrow> int" where
  "roulette fl random_val cumulative [] best_token = best_token"
| "roulette fl random_val cumulative (candidate # rest) best_token =
     (if fle fl random_val (fadd fl cumulative (fst candidate)) then snd candidate
      else roulette fl random_val (fadd fl cumulative (fst candidate)) rest best_token)"

primrec cumulative_values :: "'f float_arith \<Rightarrow> 'f \<Rightarrow> ('f \<times> int) list \<Rightarrow> 'f list" where
  "cumulative_values fl cumulative [] = []"
| "cumulative_values fl cumulative (candidate # rest) =
     fadd fl cumulative (fst candidate)
       # cumulative_values fl (fadd fl cumulative (fst candidate)) rest"

text \<open>
  The choice of \<open>best_token\<close>, with the draw \<open>r\<close> of \<open>rand()\<close>: roulette sampling
  for non-empty logits, else \<open>rand() % vocab_limit\<close>, undefined for \<open>vocab_limit = 0\<close>.
\<close>

definition sample_token ::
  "'f float_arith \<Rightarrow> 'f list \<Rightarrow> RealTensorModel \<Rightarrow> int \<Rightarrow> fault + int" where
  "sample_token fl logits0 m r =
     (if length logits0 > 0
      then
        let probs = softmax_probs fl logits0
        in if \<not> strict_weak_ordering (pair_greater fl) (candidates probs)
           then Inl UnorderedSort
           else Inr (roulette fl (random_value fl r) (float_of fl 0)
                       (take (top_k probs) (top_tokens fl probs)) 0)
      else
        let vocab_limit = min 100 (to_int32 (n_vocab m))
        in if vocab_limit = 0 then Inl DivideByZero else Inr (r smod vocab_limit))"

text \<open>
  \<open>generateNextStreamingToken\<close>, on the context registered under \<open>context_id\<close>.
\<close>

definition generateNextStreamingToken ::
  "'f float_arith \<Rightarrow> bridge_state \<Rightarrow> int \<Rightarrow> rand_state
     \<Rightarrow> fault + (string \<times> bridge_state \<times> rand_state)" where
  "generateNextStreamingToken fl s context_id rng =
     (case map_of (contexts s) context_id of
        None \<Rightarrow> Inl UseAfterFree
      | Some context \<Rightarrow>
          if \<not> is_streaming context
             \<or> tokens_generated context \<ge> max_tokens_to_generate context
          then Inr ([], s, rng)
          else
            case forwardPass fl (full_context_tokens context) context_id s rng of
              Inl f \<Rightarrow> Inl f
            | Inr (logits0, s1, rng1) \<Rightarrow>
                case map_of (models s1) (model context) of
                  None \<Rightarrow> Inl UseAfterFree
                | Some m \<Rightarrow>
                    case sample_token fl logits0 m (rng1 0) of
                      Inl f \<Rightarrow> Inl f
                    | Inr best_token \<Rightarrow>
                        let context1 = context\<lparr>
                              full_context_tokens := full_context_tokens context @ [best_token],
                              generated_tokens := generated_tokens context @ [best_token],
                              tokens_generated := tokens_generated context + 1\<rparr>;
                            token_text = (case id_to_token m best_token of
                                            Some t \<Rightarrow> t | None \<Rightarrow> ''<unk>'');
                            context2 = (if best_token = 3
                                        then context1\<lparr>is_streaming := False\<rparr>
                                        else context1)
                        in Inr (token_text,
                                s1\<lparr>contexts := AList.update context_id context2 (contexts s1)\<rparr>,
                                rand_skip 1 rng1))"

definition isStreamingComplete :: "RealInferenceContext \<Rightarrow> bool" where
  "isStreamingComplete context =
     (\<not> is_streaming context \<or> tokens_generated context \<ge> max_tokens_to_generate context)"

text \<open>
  The entry points \<open>startStreaming\<close>, \<open>getNextStreamingToken\<close> and
  \<open>isStreamingComplete\<close> of the call boundary. \<open>input_text\<close> is \<open>None\<close> when
  \<open>GetStringUTFChars\<close> fails. In \<open>startStreaming\<close> the context pointer is read from
  the registry before the memory check, so the context is looked up again by
  \<open>startStreamingInference\<close> after a recovery. An exception thrown while a token is
  generated is caught: streaming stops and the empty string is returned.
\<close>

definition startStreaming ::
  "bridge_state \<Rightarrow> int \<Rightarrow> string option \<Rightarrow> int \<Rightarrow> fault + (bool \<times> bridge_state)" where
  "startStreaming s context_id input_text max_tokens =
     (case map_of (contexts s) context_id of
        None \<Rightarrow> Inr (False, s)
      | Some ctx \<Rightarrow>
          if \<not> initialized ctx \<or> model ctx = 0 then Inr (False, s)
          else if is_streaming ctx then Inr (False, s)
          else
            case (if \<not> checkMemoryHealth s then recoverFromMemoryError s else (True, s)) of
              (recovered, s0) \<Rightarrow>
                if \<not> recovered then Inr (False, s0)
                else case input_text of
                  None \<Rightarrow> Inr (False, s0)
                | Some input \<Rightarrow>
                    if max_tokens \<le> 0 \<or> max_tokens > 2048 then Inr (False, s0)
                    else if length input = 0 \<or> length input > 8192 then Inr (False, s0)
                    else startStreamingInference s0 context_id input max_tokens)"

definition getNextStreamingToken ::
  "'f float_arith \<Rightarrow> bridge_state \<Rightarrow> int \<Rightarrow> rand_state
     \<Rightarrow> fault + (string \<times> bridge_state \<times> rand_state)" where
  "getNextStreamingToken fl s context_id rng =
     (case map_of (contexts s) context_id of
        None \<Rightarrow> Inr ([], s, rng)
      | Some ctx \<Rightarrow>
          if \<not> initialized ctx then Inr ([], s, rng)
          else if \<not> is_streaming ctx then Inr ([], s, rng)
          else
            case generateNextStreamingToken fl s context_id rng of
              Inl f \<Rightarrow>
                if f = LengthError
                then Inr ([], s\<lparr>contexts :=
                                 AList.update context_id (ctx\<lparr>is_streaming := False\<rparr>)
                                   (contexts s)\<rparr>, rng)
                else Inl f
            | Inr (next_token, s1, rng1) \<Rightarrow>
                Inr (if length next_token > 256 then take 256 next_token else next_token,
                     s1, rng1))"

definition jni_isStreamingComplete :: "bridge_state \<Rightarrow> int \<Rightarrow> bool" where
  "jni_isStreamingComplete s context_id =
     (case map_of (contexts s) context_id of
        None \<Rightarrow> True
      | Some ctx \<Rightarrow> if \<not> initialized ctx then True else isStreamingComplete ctx)"

text \<open>\<open>n\<close> successive \<open>getNextStreamingToken\<close> calls on one context.\<close>

primrec nextToken_calls ::
  "'f float_arith \<Rightarrow> nat \<Rightarrow> bridge_state \<Rightarrow> int \<Rightarrow> rand_state
     \<Rightarrow> fault + (bridge_state \<times> rand_state)" where
  "nextToken_calls fl 0 s context_id rng = Inr (s, rng)"
| "nextToken_calls fl (Suc n) s context_id rng =
     (case getNextStreamingToken fl s context_id rng of
        Inl f \<Rightarrow> Inl f
      | Inr (next_token, s1, rng1) \<Rightarrow> nextToken_calls fl n s1 context_id rng1)"

text \<open>
  The sizes and counters of a forward pass fit the type \<open>int\<close>: the sequence length and
  its square, the embedding width and the embedding size, every token id and its sum with
  the embedding width, the head count, the layer count and the vocabulary size.
\<close>

definition within_int_limits :: "int list \<Rightarrow> RealTensorModel \<Rightarrow> bool" where
  "within_int_limits tokens m =
     (int (length tokens) * int (length tokens) < 2 ^ 31
      \<and> 0 \<le> n_embd m \<and> int (length tokens) * n_embd m < 2 ^ 31
      \<and> list_all (\<lambda>token_id. in_int_range token_id \<and> in_int_range (token_id + n_embd m)) tokens
      \<and> 0 \<le> n_head m \<and> n_head m < 2 ^ 31
      \<and> 0 \<le> n_layer m \<and> n_layer m < 2 ^ 31
      \<and> 0 \<le> n_vocab m \<and> n_vocab m < 2 ^ 31)"

text \<open>
  Example models and states for streaming: a loaded model with the four reserved tokens,
  no embedding dimensions and no layers, with a vocabulary of \<open>vocab_size\<close> ids; a state
  with that model and one idle context; the context after \<open>startStreaming\<close> on the
  text \<open>hi\<close>; the state after one token was generated from draws that are all 0; a
  generator whose draw number 51 is \<open>RAND_MAX\<close>.
\<close>

definition tiny_model :: "int \<Rightarrow> RealTensorModel" where
  "tiny_model vocab_size =
     (arena_model 4096)\<lparr>n_vocab := vocab_size, n_head := 1,
        token_to_id := [''<pad>'' \<mapsto> 0, ''<unk>'' \<mapsto> 1, ''<s>'' \<mapsto> 2, ''</s>'' \<mapsto> 3],
        id_to_token := [0 \<mapsto> ''<pad>'', 1 \<mapsto> ''<unk>'', 2 \<mapsto> ''<s>'', 3 \<mapsto> ''</s>'']\<rparr>"

definition tiny_state :: "int \<Rightarrow> bridge_state" where
  "tiny_state vocab_size =
     \<lparr>models = [(1, tiny_model vocab_size)], contexts = [(2, idle_context 1)], next_id = 3\<rparr>"

definition streaming_context :: "int \<Rightarrow> RealInferenceContext" where
  "streaming_context max_tokens =
     (idle_context 1)\<lparr>is_streaming := True, max_tokens_to_generate := max_tokens,
        input_tokens := [2, 1], full_context_tokens := [2, 1]\<rparr>"

definition started_state :: "int \<Rightarrow> bridge_state" where
  "started_state vocab_size =
     (tiny_state vocab_size)\<lparr>contexts := [(2, streaming_context 5)]\<rparr>"

definition finished_state :: bridge_state where
  "finished_state =
     (tiny_state 4)\<lparr>contexts :=
        [(2, (streaming_context 5)\<lparr>full_context_tokens := [2, 1, 3],
               generated_tokens := [3], tokens_generated := 1, is_streaming := False\<rparr>)]\<rparr>"

definition zero_draws :: rand_state where
  "zero_draws = (\<lambda>k. 0)"

definition last_draw_max :: rand_state where
  "last_draw_max = (\<lambda>k. if k = 51 then RAND_MAX else 0)"

text \<open>
  A container that stores a head count of 0 with one layer, and the state after loading
  it into the initial state and registering one context of the model.
\<close>

definition zero_head_container :: gguf_context where
  "zero_head_container =
     \<lparr>kv_u32 = [''llama.vocab_size'' \<mapsto> 4, ''llama.embedding_length'' \<mapsto> 2,
               ''llama.attention.head_count'' \<mapsto> 0, ''llama.block_count'' \<mapsto> 1],
      tokenizer_tokens = Some [Some ''<pad>'', Some ''<unk>'', Some ''<s>'', Some ''</s>''],
      tensor_infos = [(''token_embd.weight'', GGML_TYPE_F32, 4096)]\<rparr>"

definition zero_head_state :: bridge_state where
  "zero_head_state =
     (snd (loadModel initial_state (good_file zero_head_container)))
       \<lparr>contexts := [(2, idle_context 1)], next_id := 3\<rparr>"

text \<open>
  The end-to-end configuration of the specification: 2 layers, 4 heads, 8 embedding
  dimensions and 64 vocabulary ids, with one streaming context.
\<close>

definition scenario_model :: RealTensorModel where
  "scenario_model = (tiny_model 64)\<lparr>n_embd := 8, n_head := 4, n_layer := 2\<rparr>"

definition scenario_state :: bridge_state where
  "scenario_state =
     \<lparr>models = [(1, scenario_model)], contexts = [(2, streaming_context 5)], next_id = 3\<rparr>"

text \<open>
  The invariant of a streaming session started with \<open>max_tokens\<close>: the limit is
  stored, the counter is within it and counts the generated tokens, and a context that has
  generated the end-of-sequence id 3 is no longer streaming.
\<close>

definition stream_invariant :: "int \<Rightarrow> RealInferenceContext \<Rightarrow> bool" where
  "stream_invariant max_tokens c =
     (max_tokens_to_generate c = max_tokens
      \<and> tokens_generated c \<le> max_tokens
      \<and> int (length (generated_tokens c)) = tokens_generated c
      \<and> (3 \<in> set (generated_tokens c) \<longrightarrow> \<not> is_streaming c))"

section \<open>Properties of the tokenizer\<close>

lemma subword_loop_Nil: "subword_loop m [] tokens = tokens"
  by (subst subword_loop.simps) simp

lemma subword_loop_None:
  "remaining \<noteq> [] \<Longrightarrow> find_prefix (token_to_id m) remaining (min (length remaining) 10) = None
   \<Longrightarrow> subword_loop m remaining tokens = tokens @ [1]"
  by (subst subword_loop.simps) simp

lemma subword_loop_Some:
  "remaining \<noteq> [] \<Longrightarrow>
   find_prefix (token_to_id m) remaining (min (length remaining) 10) = Some (len, i)
   \<Longrightarrow> subword_loop m remaining tokens = subword_loop m (drop len remaining) (tokens @ [i])"
  by (subst subword_loop.simps) simp

lemma find_prefix_None:
  "find_prefix t w n = None \<longleftrightarrow> (\<forall>l\<in>{1..n}. t (take l w) = None)"
proof (induction n)
  case 0
  then show ?case by simp
next
  case (Suc n)
  have "{1..Suc n} = insert (Suc n) {1..n}" by auto
  with Suc show ?case by (auto split: option.splits)
qed

lemma find_prefix_Some:
  "find_prefix t w n = Some (l, i) \<Longrightarrow>
     1 \<le> l \<and> l \<le> n \<and> t (take l w) = Some i
     \<and> (\<forall>k. l < k \<and> k \<le> n \<longrightarrow> t (take k w) = None)"
proof (induction n)
  case 0
  then show ?case by simp
next
  case (Suc n)
  show ?case
  proof (cases "t (take (Suc n) w)")
    case None
    with Suc.prems have "find_prefix t w n = Some (l, i)" by simp
    from Suc.IH [OF this] None show ?thesis
      by (auto simp: le_Suc_eq)
  next
    case (Some j)
    with Suc.prems show ?thesis by auto
  qed
qed

lemma find_prefix_Max:
  assumes "find_prefix t w (min (length w) 10) = Some (l, i)"
  shows "l = Max (known_prefix_lengths t w) \<and> t (take l w) = Some i"
proof -
  from find_prefix_Some [OF assms]
  have l: "1 \<le> l" "l \<le> min (length w) 10" "t (take l w) = Some i"
    and gt: "\<And>k. l < k \<Longrightarrow> k \<le> min (length w) 10 \<Longrightarrow> t (take k w) = None"
    by auto
  have fin: "finite (known_prefix_lengths t w)"
    by (simp add: known_prefix_lengths_def)
  have mem: "l \<in> known_prefix_lengths t w"
    using l by (simp add: known_prefix_lengths_def)
  have ub: "k \<le> l" if "k \<in> known_prefix_lengths t w" for k
  proof (rule ccontr)
    assume "\<not> k \<le> l"
    with that gt [of k] show False
      by (auto simp: known_prefix_lengths_def)
  qed
  from fin mem ub have "Max (known_prefix_lengths t w) = l"
    by (intro Max_eqI) auto
  with l show ?thesis by simp
qed

lemma find_prefix_no_known:
  "find_prefix t w (min (length w) 10) = None \<longleftrightarrow> known_prefix_lengths t w = {}"
  by (auto simp: find_prefix_None known_prefix_lengths_def)

lemma subword_loop_acc:
  "subword_loop m w acc = acc @ subword_loop m w []"
proof (induction "length w" arbitrary: w acc rule: less_induct)
  case less
  show ?case
  proof (cases "w = []")
    case True
    then show ?thesis by (simp add: subword_loop_Nil)
  next
    case ne: False
    show ?thesis
    proof (cases "find_prefix (token_to_id m) w (min (length w) 10)")
      case None
      with ne show ?thesis by (simp add: subword_loop_None)
    next
      case (Some p)
      obtain len i where p: "p = (len, i)" by (cases p)
      from find_prefix_range Some p have "1 \<le> len" by metis
      with ne have shorter: "length (drop len w) < length w" by (cases w) auto
      have a: "subword_loop m (drop len w) (acc @ [i])
                = (acc @ [i]) @ subword_loop m (drop len w) []"
        by (rule less.hyps [OF shorter])
      have b: "subword_loop m (drop len w) [i] = [i] @ subword_loop m (drop len w) []"
        by (rule less.hyps [OF shorter])
      show ?thesis using a b ne Some p by (simp add: subword_loop_Some)
    qed
  qed
qed

lemma tokenizeSubword_unfold:
  "tokenizeSubword r m =
     (if r = [] then []
      else if known_prefix_lengths (token_to_id m) r = {} then [1]
      else the (token_to_id m (take (Max (known_prefix_lengths (token_to_id m) r)) r))
             # tokenizeSubword (drop (Max (known_prefix_lengths (token_to_id m) r)) r) m)"
proof (cases "r = []")
  case True
  then show ?thesis by (simp add: tokenizeSubword_def subword_loop_Nil)
next
  case ne: False
  show ?thesis
  proof (cases "find_prefix (token_to_id m) r (min (length r) 10)")
    case None
    with ne show ?thesis
      using find_prefix_no_known [of "token_to_id m" r]
      by (simp add: tokenizeSubword_def subword_loop_None)
  next
    case (Some p)
    obtain len i where p: "p = (len, i)" by (cases p)
    from Some p find_prefix_Max [of "token_to_id m" r len i]
    have mx: "len = Max (known_prefix_lengths (token_to_id m) r)"
      and hit: "token_to_id m (take len r) = Some i" by auto
    from Some have known: "known_prefix_lengths (token_to_id m) r \<noteq> {}"
      using find_prefix_no_known [of "token_to_id m" r] by simp
    have "subword_loop m r [] = subword_loop m (drop len r) [i]"
      using ne Some p by (simp add: subword_loop_Some)
    also have "\<dots> = i # subword_loop m (drop len r) []"
      using subword_loop_acc [of m "drop len r" "[i]"] by simp
    finally show ?thesis
      using ne known mx hit by (simp add: tokenizeSubword_def)
  qed
qed

lemma tokenizeSubword_length: "length (tokenizeSubword w m) \<le> length w"
proof (induction "length w" arbitrary: w rule: less_induct)
  case less
  show ?case
  proof (cases "w = []")
    case True
    then show ?thesis by (simp add: tokenizeSubword_def subword_loop_Nil)
  next
    case ne: False
    show ?thesis
    proof (cases "find_prefix (token_to_id m) w (min (length w) 10)")
      case None
      with ne show ?thesis
        by (cases w) (simp_all add: tokenizeSubword_def subword_loop_None)
    next
      case (Some p)
      obtain len i where p: "p = (len, i)" by (cases p)
      from find_prefix_range Some p have len: "1 \<le> len" by metis
      with ne have shorter: "length (drop len w) < length w" by (cases w) auto
      have "tokenizeSubword w m = i # tokenizeSubword (drop len w) m"
        using ne Some p subword_loop_acc [of m "drop len w" "[i]"]
        by (simp add: tokenizeSubword_def subword_loop_Some)
      moreover have "length (tokenizeSubword (drop len w) m) \<le> length (drop len w)"
        by (rule less.hyps [OF shorter])
      ultimately show ?thesis using shorter by simp
    qed
  qed
qed

text \<open>
  C7. Encoding the empty string gives exactly one token, the begin-of-sequence id 2,
  whatever the model's vocabulary is.
\<close>

theorem tokenizeAdvanced_empty: "tokenizeAdvanced [] m = [2]"
  by (simp add: tokenizeAdvanced_def)

text \<open>
  C8. For a word that has no entry in the string-to-id map, the encoder runs the subword
  fallback. On every remaining suffix \<open>r\<close> the fallback emits nothing when \<open>r\<close> is
  empty, emits the unknown id 1 once and stops when no prefix of length 1 to
  \<open>min (length r) 10\<close> is known, and otherwise emits the id of the longest known prefix
  and continues on the rest. The function is total (its termination is proved with the
  definition) and emits at most one id per character of the word.
\<close>

theorem tokenizeSubword_longest_prefix:
  assumes "token_to_id m word = None"
  shows "word_tokens m word = tokenizeSubword word m
    \<and> (\<forall>r. tokenizeSubword r m =
          (if r = [] then []
           else if known_prefix_lengths (token_to_id m) r = {} then [1]
           else the (token_to_id m (take (Max (known_prefix_lengths (token_to_id m) r)) r))
                  # tokenizeSubword (drop (Max (known_prefix_lengths (token_to_id m) r)) r) m))
    \<and> length (tokenizeSubword word m) \<le> length word"
proof (intro conjI allI)
  show "word_tokens m word = tokenizeSubword word m"
    using assms by (simp add: word_tokens_def)
next
  fix r
  show "tokenizeSubword r m =
          (if r = [] then []
           else if known_prefix_lengths (token_to_id m) r = {} then [1]
           else the (token_to_id m (take (Max (known_prefix_lengths (token_to_id m) r)) r))
                  # tokenizeSubword (drop (Max (known_prefix_lengths (token_to_id m) r)) r) m)"
    by (rule tokenizeSubword_unfold)
next
  show "length (tokenizeSubword word m) \<le> length word"
    by (rule tokenizeSubword_length)
qed

theorem tokenizeSubword_longest_prefix_witness:
  "token_to_id vocab_abc ''abcz'' = None
   \<and> word_tokens vocab_abc ''abcz'' = tokenizeSubword ''abcz'' vocab_abc
   \<and> tokenizeSubword ''abcz'' vocab_abc = [5, 7, 1]
   \<and> tokenizeAdvanced ''Abcz ab.'' vocab_abc = [2, 5, 7, 1, 5, 1]"
proof -
  have h: "token_to_id vocab_abc ''abcz'' = None"
    by (simp add: vocab_abc_def new_RealTensorModel_def)
  have e: "tokenizeSubword ''abcz'' vocab_abc = [5, 7, 1]"
    by (simp add: tokenizeSubword_def subword_loop.simps vocab_abc_def
        new_RealTensorModel_def)
  have t: "tokenizeAdvanced ''Abcz ab.'' vocab_abc = [2, 5, 7, 1, 5, 1]"
    by code_simp
  from tokenizeSubword_longest_prefix [OF h] h e t show ?thesis by simp
qed

section \<open>Properties of the memory governor and of freeModel\<close>

lemmas gov_defs = getTotalMemoryUsage_def checkMemoryHealth_def forceMemoryCleanup_def
  recoverFromMemoryError_def MAX_MEMORY_LIMIT_def model_corrupted_def most_recent_model_def
  RealInferenceContext_getMemoryUsage_def trim_context_def

lemmas ex_defs = state_16_models_def full_arena_models_def
  arena_model_def idle_context_def new_RealTensorModel_def new_RealInferenceContext_def
  small_container_def good_file_def missing_file_def initial_state_def

lemmas load_defs = loadModel_def loadRealTensorModel_def register_model_def
  load_vocabulary_def demo_tensors_def loadTensorWithQuantization_def element_count_def
  essential_tensor_def u32_or_def max_tensor_size_def MAX_MODEL_SIZE_def add_token_def

lemma large_model_fields:
  "tensor_data_size large_model = 32 * 1024 * 1024"
  "loaded large_model" "\<not> model_corrupted large_model"
  "ggml_ctx large_model = Some (32 * 1024 * 1024)" "tensor_data large_model"
  "tensors large_model = [(''token_embd.weight'', 64), (''output.weight'', 32)]"
  by (simp_all add: large_model_def load_defs large_container_def array_token_def
      new_RealTensorModel_def model_corrupted_def)

lemma load_large:
  assumes "getTotalMemoryUsage s \<le> MAX_MEMORY_LIMIT"
    and "\<not> list_ex (\<lambda>pair. model_corrupted (snd pair)) (models s)"
  shows "snd (loadModel s (good_file large_container))
           = s\<lparr>models := AList.update (next_id s) large_model (models s),
                next_id := next_id s + 1\<rparr>"
proof -
  have h: "checkMemoryHealth s" using assms by (simp add: checkMemoryHealth_def)
  have l: "loadRealTensorModel (Some large_container) True (\<lambda>call. True)
            (new_RealTensorModel\<lparr>path := ''model.gguf'', file_size := 8192\<rparr>)
           = (True, large_model)"
    by (simp add: large_model_def loadRealTensorModel_def Let_def)
  show ?thesis
    using large_model_fields
    by (simp add: loadModel_def h good_file_def l register_model_def MAX_MODEL_SIZE_def)
qed

lemma replicate_17:
  "replicate 17 x = [x, x, x, x, x, x, x, x, x, x, x, x, x, x, x, x, x]"
  by (simp add: numeral_eq_Suc)

text \<open>The state after 17 loads, in closed form.\<close>

lemma state_17_models_eq:
  "state_17_models =
     \<lparr>models = map (\<lambda>k. (k, large_model))
                 [1, 2, 3, 4, 5, 6, 7, 8, 9, 10, 11, 12, 13, 14, 15, 16, 17],
      contexts = [], next_id = 18\<rparr>"
  unfolding state_17_models_def load_all_def replicate_17
  by (simp add: initial_state_def load_large getTotalMemoryUsage_def
      MAX_MEMORY_LIMIT_def large_model_fields)


lemma trim_context_usage:
  "RealInferenceContext_getMemoryUsage (trim_context c) = retained_bytes c"
  by (simp add: RealInferenceContext_getMemoryUsage_def trim_context_def retained_bytes_def)




text \<open>
  C6. \<open>freeModel\<close> on a registered handle that some registered context points to
  changes nothing: the whole state, so the model registry and the context registry, is the
  same after the call.
\<close>

theorem freeModel_in_use_rejected:
  assumes "map_of (models s) model_id = Some m"
    and "\<exists>ctx_pair \<in> set (contexts s). model (snd ctx_pair) = model_id"
  shows "freeModel s model_id = s"
  using assms by (auto simp: freeModel_def list_ex_iff)

theorem freeModel_in_use_rejected_witness:
  "map_of (models state_16_models) 1 = Some (arena_model (32 * 1024 * 1024))
   \<and> (\<exists>ctx_pair \<in> set (contexts state_16_models). model (snd ctx_pair) = 1)
   \<and> freeModel state_16_models 1 = state_16_models"
proof -
  have a: "map_of (models state_16_models) 1 = Some (arena_model (32 * 1024 * 1024))"
    by (simp add: state_16_models_def full_arena_models_def)
  have b: "\<exists>ctx_pair \<in> set (contexts state_16_models). model (snd ctx_pair) = 1"
    by (simp add: state_16_models_def idle_context_def new_RealInferenceContext_def)
  from freeModel_in_use_rejected [OF a b] a b show ?thesis by simp
qed

section \<open>Properties of model loading\<close>

lemma retained_bytes_le: "retained_bytes c \<le> RealInferenceContext_getMemoryUsage c"
  by (simp add: RealInferenceContext_getMemoryUsage_def retained_bytes_def)

lemma forceMemoryCleanup_models: "models (forceMemoryCleanup s) = models s"
  by (simp add: forceMemoryCleanup_def)

lemma sum_list_streaming_le:
  "sum_list (map (\<lambda>pair. RealInferenceContext_getMemoryUsage (trim_context (snd pair)))
       (filter (\<lambda>pair. is_streaming (snd pair)) cs))
   \<le> sum_list (map (\<lambda>pair. RealInferenceContext_getMemoryUsage (snd pair)) cs)"
proof (induction cs)
  case Nil
  then show ?case by simp
next
  case (Cons c cs)
  have "retained_bytes (snd c) \<le> RealInferenceContext_getMemoryUsage (snd c)"
    by (rule retained_bytes_le)
  with Cons show ?case by (simp add: trim_context_usage)
qed

lemma forceMemoryCleanup_usage_le:
  "getTotalMemoryUsage (forceMemoryCleanup s) \<le> getTotalMemoryUsage s"
  using sum_list_streaming_le [of "contexts s"]
  by (simp add: getTotalMemoryUsage_def forceMemoryCleanup_def comp_def)

lemma forceMemoryCleanup_keeps_health:
  "checkMemoryHealth s \<Longrightarrow> checkMemoryHealth (forceMemoryCleanup s)"
  using forceMemoryCleanup_usage_le [of s]
  by (simp add: checkMemoryHealth_def forceMemoryCleanup_models split: if_splits)

lemma recoverFromMemoryError_healthy:
  "checkMemoryHealth s \<Longrightarrow> recoverFromMemoryError s = (True, forceMemoryCleanup s)"
  by (simp add: recoverFromMemoryError_def forceMemoryCleanup_keeps_health)

lemma recoverFromMemoryError_models_subset:
  "set (models (snd (recoverFromMemoryError s))) \<subseteq> set (models s)"
  by (auto simp: recoverFromMemoryError_def Let_def forceMemoryCleanup_models)

lemma loadRealTensorModel_unparsed:
  "loadRealTensorModel None init_ok created m = (False, m)"
  by (simp add: loadRealTensorModel_def)

text \<open>
  C2, as stated, fails when memory is unhealthy at entry: after 17 loads of models with a
  32 MB arena the recovery that \<open>loadModel\<close> runs first evicts 16 of them, and the
  call then fails on the path that cannot be opened. The handle is 0, the model registry
  is not the same.
\<close>

theorem loadModel_failure_counterexample:
  "\<not> file_opens missing_file
   \<and> fst (loadModel state_17_models missing_file) = 0
   \<and> map fst (models state_17_models)
       = [1, 2, 3, 4, 5, 6, 7, 8, 9, 10, 11, 12, 13, 14, 15, 16, 17]
   \<and> map fst (models (snd (loadModel state_17_models missing_file))) = [17]"
  by (simp add: state_17_models_eq large_model_fields loadModel_def missing_file_def
      getTotalMemoryUsage_def checkMemoryHealth_def forceMemoryCleanup_def
      recoverFromMemoryError_def MAX_MEMORY_LIMIT_def most_recent_model_def)

text \<open>
  C2, amended. A \<open>loadModel\<close> call on a path that cannot be opened, or on a file that
  the GGUF reader rejects, returns the handle 0 and commits no entry: every entry of the
  model registry after the call was in it before, and when memory is healthy at entry the
  model registry is exactly the same.
\<close>

theorem loadModel_failure_commits_nothing:
  assumes "\<not> file_opens env \<or> gguf_init_from_file env = None"
  shows "fst (loadModel s env) = 0
    \<and> set (models (snd (loadModel s env))) \<subseteq> set (models s)
    \<and> (isMemoryHealthy s \<longrightarrow> models (snd (loadModel s env)) = models s)"
proof (cases "checkMemoryHealth s")
  case True
  with assms show ?thesis
    by (auto simp: loadModel_def isMemoryHealthy_def loadRealTensorModel_unparsed
        recoverFromMemoryError_healthy forceMemoryCleanup_models
        split: option.splits)
next
  case False
  obtain r s0 where r: "recoverFromMemoryError s = (r, s0)" by (cases "recoverFromMemoryError s")
  with recoverFromMemoryError_models_subset [of s]
  have sub0: "set (models s0) \<subseteq> set (models s)" by simp
  obtain r1 s1 where r1: "recoverFromMemoryError s0 = (r1, s1)" by (cases "recoverFromMemoryError s0")
  with recoverFromMemoryError_models_subset [of s0]
  have sub1: "set (models s1) \<subseteq> set (models s0)" by simp
  from assms False r r1 sub0 sub1 show ?thesis
    by (auto simp: loadModel_def isMemoryHealthy_def loadRealTensorModel_unparsed
        split: option.splits)
qed


theorem loadModel_failure_commits_nothing_witness:
  "\<not> file_opens missing_file
   \<and> isMemoryHealthy state_one_model
   \<and> fst (loadModel state_one_model missing_file) = 0
   \<and> models (snd (loadModel state_one_model missing_file)) = models state_one_model"
proof -
  have a: "\<not> file_opens missing_file"
    by (simp add: missing_file_def)
  have b: "isMemoryHealthy state_one_model"
    by (simp add: isMemoryHealthy_def state_one_model_def gov_defs ex_defs)
  from loadModel_failure_commits_nothing [OF disjI1 [OF a], of state_one_model] a b
  show ?thesis by simp
qed

lemma fold_add_token_shape:
  "\<exists>v t i. fold (\<lambda>k. add_token (f k) (g k)) ks m
       = m\<lparr>vocab := v, token_to_id := t, id_to_token := i\<rparr>"
proof (induction ks arbitrary: m)
  case Nil
  have "m = m\<lparr>vocab := vocab m, token_to_id := token_to_id m, id_to_token := id_to_token m\<rparr>"
    by simp
  then show ?case by (metis fold_simps(1))
next
  case (Cons k ks)
  from Cons [of "add_token (f k) (g k) m"] show ?case
    by (auto simp: add_token_def)
qed

lemma load_vocabulary_shape:
  "\<exists>v t i. load_vocabulary g m = m\<lparr>vocab := v, token_to_id := t, id_to_token := i\<rparr>"
proof (cases "tokenizer_tokens g")
  case None
  let ?m = "m\<lparr>vocab := [], token_to_id := Map.empty, id_to_token := Map.empty\<rparr>"
  from fold_add_token_shape [of "\<lambda>i. basic_tokens ! i" int "[0 ..< length basic_tokens]" ?m]
  obtain v t i where a: "fold (\<lambda>i. add_token (basic_tokens ! i) (int i))
      [0 ..< length basic_tokens] ?m = ?m\<lparr>vocab := v, token_to_id := t, id_to_token := i\<rparr>"
    by blast
  from fold_add_token_shape [of placeholder_token int "[length basic_tokens ..< nat (n_vocab ?m)]"
      "?m\<lparr>vocab := v, token_to_id := t, id_to_token := i\<rparr>"]
  obtain v' t' i' where b: "fold (\<lambda>i. add_token (placeholder_token i) (int i))
      [length basic_tokens ..< nat (n_vocab ?m)] (?m\<lparr>vocab := v, token_to_id := t, id_to_token := i\<rparr>)
      = ?m\<lparr>vocab := v', token_to_id := t', id_to_token := i'\<rparr>"
    by auto
  from None a b show ?thesis
    by (auto simp: load_vocabulary_def Let_def)
next
  case (Some arr)
  let ?m = "m\<lparr>vocab := [], token_to_id := Map.empty, id_to_token := Map.empty\<rparr>"
  from fold_add_token_shape [of "array_token arr" int "[0 ..< min (length arr) (nat (n_vocab ?m))]" ?m]
  obtain v t i where a: "fold (\<lambda>i. add_token (array_token arr i) (int i))
      [0 ..< min (length arr) (nat (n_vocab ?m))] ?m = ?m\<lparr>vocab := v, token_to_id := t, id_to_token := i\<rparr>"
    by blast
  from Some a show ?thesis
    by (auto simp: load_vocabulary_def Let_def)
qed

lemma set_update_subset: "set (AList.update k v al) \<subseteq> insert (k, v) (set al)"
  by (induction al) auto


lemma ltq_created:
  "loadTensorWithQuantization m name ty sz True
     = (True, m\<lparr>tensor_types := AList.update name ty (tensor_types m),
                tensors := AList.update name (element_count ty sz) (tensors m)\<rparr>)"
  by (simp add: loadTensorWithQuantization_def)

lemma ltq_failed:
  "loadTensorWithQuantization m name ty sz False
     = (False, m\<lparr>tensor_types := AList.update name ty (tensor_types m)\<rparr>)"
  by (simp add: loadTensorWithQuantization_def)

lemma load_tensors_fields:
  "n_vocab (fst (load_tensors created infos (m, k, c))) = n_vocab m
   \<and> tensor_data_size (fst (load_tensors created infos (m, k, c))) = tensor_data_size m"
proof (induction infos arbitrary: m k c)
  case Nil
  then show ?case by simp
next
  case (Cons info rest)
  obtain name ty sz where info: "info = (name, ty, sz)" by (cases info)
  show ?case
    by (cases "created c") (simp_all add: info Cons ltq_created ltq_failed)
qed

lemma load_tensors_count_mono:
  "k \<le> fst (snd (load_tensors created infos (m, k, c)))"
proof (induction infos arbitrary: m k c)
  case Nil
  then show ?case by simp
next
  case (Cons info rest)
  obtain name ty sz where info: "info = (name, ty, sz)" by (cases info)
  show ?case
    using Cons [of "k + 1"] Cons [of k]
    by (cases "created c") (auto simp: info ltq_created ltq_failed intro: Suc_leD)
qed

lemma load_tensors_none_loaded:
  "fst (snd (load_tensors created infos (m, 0, c))) = 0
   \<Longrightarrow> tensors (fst (load_tensors created infos (m, 0, c))) = tensors m"
proof (induction infos arbitrary: m c)
  case Nil
  then show ?case by simp
next
  case (Cons info rest)
  obtain name ty sz where info: "info = (name, ty, sz)" by (cases info)
  show ?case
  proof (cases "essential_tensor name")
    case False
    with Cons info show ?thesis by simp
  next
    case ess: True
    show ?thesis
    proof (cases "created c")
      case False
      with ess info show ?thesis by (simp add: ltq_failed)
    next
      case True
      let ?m1 = "m\<lparr>tensor_types := AList.update name ty (tensor_types m),
                 tensors := AList.update name (element_count ty sz) (tensors m)\<rparr>"
      have "1 \<le> fst (snd (load_tensors created rest (?m1, 1, c + 1)))"
        by (rule load_tensors_count_mono)
      with Cons.prems ess True info show ?thesis
        by (simp add: ltq_created)
    qed
  qed
qed

lemma load_tensors_from:
  assumes "set infos \<subseteq> set all" and "tensors_from all (tensors m)"
  shows "tensors_from all (tensors (fst (load_tensors created infos (m, k, c))))"
  using assms
proof (induction infos arbitrary: m k c)
  case Nil
  then show ?case by simp
next
  case (Cons info rest)
  obtain name ty sz where info: "info = (name, ty, sz)" by (cases info)
  from Cons.prems have rest: "set rest \<subseteq> set all" and mem: "(name, ty, sz) \<in> set all"
    by (auto simp: info)
  let ?m0 = "m\<lparr>tensor_types := AList.update name ty (tensor_types m)\<rparr>"
  let ?m1 = "?m0\<lparr>tensors := AList.update name (element_count ty sz) (tensors ?m0)\<rparr>"
  have inv0: "tensors_from all (tensors ?m0)"
    using Cons.prems(2) by simp
  have inv1: "tensors_from all (tensors ?m1)"
    using Cons.prems(2) mem set_update_subset [of name "element_count ty sz" "tensors m"]
    by (fastforce simp: tensors_from_def)
  show ?case
    using Cons.IH [OF rest inv1, of "k + 1" "c + 1"] Cons.IH [OF rest Cons.prems(2), of k c] inv0
    by (cases "created c") (simp_all add: info ltq_created ltq_failed)
qed


lemma demo_tensors_result:
  assumes "tensors_from all (tensors m)" "k = 0 \<longrightarrow> tensors m = []"
  shows "n_vocab (demo_tensors created (m, k, c)) = n_vocab m
    \<and> tensor_data_size (demo_tensors created (m, k, c)) = tensor_data_size m
    \<and> (\<forall>entry \<in> set (tensors (demo_tensors created (m, k, c))).
          (\<exists>ty sz. (fst entry, ty, sz) \<in> set all \<and> snd entry = element_count ty sz)
          \<or> entry \<in> demo_entries)"
proof (cases "k = 0")
  case True
  with assms show ?thesis
    by (auto simp: demo_tensors_def Let_def demo_entries_def)
next
  case False
  with assms show ?thesis
    by (auto simp: demo_tensors_def tensors_from_def)
qed

lemma loadRealTensorModel_success:
  assumes ok: "loadRealTensorModel parsed init_ok created m0 = (True, m)"
    and empty: "tensors m0 = []"
  shows "\<exists>g. parsed = Some g \<and> init_ok
    \<and> n_vocab m = u32_or g ''llama.vocab_size'' 32000
    \<and> tensor_data_size m
        = min (sum_list (map (\<lambda>info. snd (snd info)) (tensor_infos g)) mod 2 ^ 64) max_tensor_size
    \<and> (\<forall>entry \<in> set (tensors m).
          (\<exists>ty sz. (fst entry, ty, sz) \<in> set (tensor_infos g) \<and> snd entry = element_count ty sz)
          \<or> entry \<in> demo_entries)"
proof -
  from ok obtain g where g: "parsed = Some g"
    by (cases parsed) (auto simp: loadRealTensorModel_def)
  from ok g have init: init_ok
    by (auto simp: loadRealTensorModel_def Let_def split: if_splits)
  define m1 where "m1 = m0\<lparr>gguf_ctx := Some g,
                     n_vocab := u32_or g ''llama.vocab_size'' 32000,
                     n_embd := u32_or g ''llama.embedding_length'' 2048,
                     n_head := u32_or g ''llama.attention.head_count'' 32,
                     n_layer := u32_or g ''llama.block_count'' 22,
                     n_ctx := u32_or g ''llama.context_length'' 2048\<rparr>"
  define total where "total = sum_list (map (\<lambda>info. snd (snd info)) (tensor_infos g)) mod 2 ^ 64"
  define arena where "arena = (if total > max_tensor_size then max_tensor_size else total)"
  obtain v t i where voc: "load_vocabulary g m1 = m1\<lparr>vocab := v, token_to_id := t, id_to_token := i\<rparr>"
    using load_vocabulary_shape by blast
  define m4 where "m4 = (load_vocabulary g m1)\<lparr>tensor_data_size := arena, tensor_data := True,
      ggml_ctx := Some arena\<rparr>"
  define st where "st = load_tensors created (tensor_infos g) (m4, 0, 0)"
  have m: "m = (demo_tensors created st)\<lparr>loaded := True\<rparr>"
    using ok g init
    by (auto simp add: loadRealTensorModel_def Let_def m1_def total_def arena_def m4_def st_def)
  have t4: "tensors m4 = []" "n_vocab m4 = u32_or g ''llama.vocab_size'' 32000"
    "tensor_data_size m4 = arena"
    using empty unfolding m4_def voc by (simp_all add: m1_def)
  obtain m5 k c where st5: "st = (m5, k, c)" by (cases st)
  have from4: "tensors_from (tensor_infos g) (tensors m4)"
    by (simp add: t4 tensors_from_def)
  have from5: "tensors_from (tensor_infos g) (tensors m5)"
    using load_tensors_from [OF subset_refl from4, of created 0 0] st5 by (simp add: st_def)
  have none5: "k = 0 \<longrightarrow> tensors m5 = []"
    using load_tensors_none_loaded [of created "tensor_infos g" m4 0] st5 t4
    by (simp add: st_def)
  have f5: "n_vocab m5 = n_vocab m4" "tensor_data_size m5 = tensor_data_size m4"
    using load_tensors_fields [of created "tensor_infos g" m4 0 0] st5 by (simp_all add: st_def)
  from demo_tensors_result [OF from5 none5, of created c] m st5 f5 t4 g init
  show ?thesis
    by (simp add: arena_def total_def min_def)
qed


lemma register_model_success:
  assumes "register_model s0 m = (h, s')" "h \<noteq> 0"
  shows "h = next_id s0 \<and> tensors m \<noteq> []
    \<and> s' = s0\<lparr>models := AList.update (next_id s0) m (models s0), next_id := next_id s0 + 1\<rparr>"
  using assms by (auto simp: register_model_def split: if_splits)

lemma loadModel_success_cases:
  assumes "loadModel s env = (h, s')" "h \<noteq> 0"
  shows "\<exists>s0 m init_ok created m0. tensors m0 = []
     \<and> loadRealTensorModel (gguf_init_from_file env) init_ok created m0 = (True, m)
     \<and> register_model s0 m = (h, s')"
proof -
  obtain r0 s0 where r0: "(if \<not> checkMemoryHealth s then recoverFromMemoryError s else (True, s)) = (r0, s0)"
    by (cases "if \<not> checkMemoryHealth s then recoverFromMemoryError s else (True, s)")
  obtain p where p: "utf_path env = Some p"
    using assms r0 by (cases "utf_path env") (auto simp: loadModel_def split: if_splits)
  let ?ma = "new_RealTensorModel\<lparr>path := p, file_size := tellg env\<rparr>"
  let ?mb = "new_RealTensorModel\<lparr>path := p, file_size := 2 ^ 64 - 1\<rparr>"
  obtain ok m where first: "loadRealTensorModel (gguf_init_from_file env)
      (ggml_init_succeeds env 0) (new_tensor_succeeds env 0) ?ma = (ok, m)"
    by (cases "loadRealTensorModel (gguf_init_from_file env)
      (ggml_init_succeeds env 0) (new_tensor_succeeds env 0) ?ma")
  obtain r1 s1 where r1: "recoverFromMemoryError s0 = (r1, s1)"
    by (cases "recoverFromMemoryError s0")
  obtain ok1 m1 where second: "loadRealTensorModel (gguf_init_from_file env)
      (ggml_init_succeeds env 1) (new_tensor_succeeds env 1) ?mb = (ok1, m1)"
    by (cases "loadRealTensorModel (gguf_init_from_file env)
      (ggml_init_succeeds env 1) (new_tensor_succeeds env 1) ?mb")
  have e: "tensors ?ma = []" "tensors ?mb = []"
    by (simp_all add: new_RealTensorModel_def)
  show ?thesis
  proof (cases ok)
    case True
    with assms r0 p first have "register_model s0 m = (h, s')"
      by (auto simp: loadModel_def split: if_splits)
    moreover from first True have "loadRealTensorModel (gguf_init_from_file env)
      (ggml_init_succeeds env 0) (new_tensor_succeeds env 0) ?ma = (True, m)" by simp
    ultimately show ?thesis using e by blast
  next
    case False
    with assms r0 p first r1 second have "ok1 \<and> register_model s1 m1 = (h, s')"
      by (auto simp: loadModel_def split: if_splits)
    moreover from this second have "loadRealTensorModel (gguf_init_from_file env)
      (ggml_init_succeeds env 1) (new_tensor_succeeds env 1) ?mb = (True, m1)" by simp
    ultimately show ?thesis using e by blast
  qed
qed

lemma uint_pos_iff: "0 < uint (v :: 32 word) \<longleftrightarrow> v \<noteq> 0"
proof -
  have "0 \<le> uint v" by simp
  moreover have "uint v = 0 \<longleftrightarrow> v = 0" by (rule uint_0_iff)
  ultimately show ?thesis by linarith
qed

text \<open>
  C3, as stated, fails twice on one container: it stores \<open>llama.vocab_size = 0\<close>, so the
  loaded model has \<open>n_vocab = 0\<close>, and its F32 tensor of 4096 bytes is decoded into 256
  elements, not into \<open>4096 div 4 = 1024\<close>.
\<close>

theorem loadModel_success_counterexample:
  "fst (loadModel initial_state (good_file small_container)) = 1
   \<and> n_vocab (the (map_of (models (snd (loadModel initial_state (good_file small_container)))) 1)) = 0
   \<and> tensors (the (map_of (models (snd (loadModel initial_state (good_file small_container)))) 1))
       = [(''token_embd.weight'', 256)]
   \<and> tensor_types (the (map_of (models (snd (loadModel initial_state (good_file small_container)))) 1))
       = [(''token_embd.weight'', GGML_TYPE_F32)]
   \<and> (4096 :: nat) div 4 = 1024"
  by (simp add: gov_defs ex_defs load_defs)

text \<open>
  C3, amended. For every \<open>loadModel\<close> call that returns a nonzero handle, the model
  registered under the handle has the \<open>n_vocab\<close> stored in the container under
  \<open>llama.vocab_size\<close> (32000 when the key is absent), which is positive exactly when
  the container does not store 0; it has at least one tensor; and every tensor is either a
  tensor of the directory with the element count \<open>element_count\<close> of its kind and byte
  size (F32: bytes/4 capped at 256; F16: bytes/2 capped at 512; Q4_K, Q4_0, Q6_K: bytes/8
  capped at 128; other kinds: bytes capped at 1024) or one of the two demo tensors.
\<close>

theorem loadModel_success_model:
  assumes "loadModel s env = (h, s')" and "h \<noteq> 0"
  shows "\<exists>g m. gguf_init_from_file env = Some g \<and> map_of (models s') h = Some m
     \<and> n_vocab m = (case kv_u32 g ''llama.vocab_size'' of Some v \<Rightarrow> uint v | None \<Rightarrow> 32000)
     \<and> (0 < n_vocab m \<longleftrightarrow> kv_u32 g ''llama.vocab_size'' \<noteq> Some 0)
     \<and> tensors m \<noteq> []
     \<and> (\<forall>entry \<in> set (tensors m).
          (\<exists>ty sz. (fst entry, ty, sz) \<in> set (tensor_infos g)
              \<and> snd entry = element_count ty sz)
          \<or> entry \<in> demo_entries)"
proof -
  from loadModel_success_cases [OF assms]
  obtain s0 m init_ok created m0 where e: "tensors m0 = []"
    and l: "loadRealTensorModel (gguf_init_from_file env) init_ok created m0 = (True, m)"
    and r: "register_model s0 m = (h, s')" by blast
  from register_model_success [OF r assms(2)]
  have look: "map_of (models s') h = Some m" and ne: "tensors m \<noteq> []"
    by (simp_all add: update_conv')
  from loadRealTensorModel_success [OF l e]
  obtain g where g: "gguf_init_from_file env = Some g"
    and nv: "n_vocab m = u32_or g ''llama.vocab_size'' 32000"
    and ts: "\<forall>entry \<in> set (tensors m).
          (\<exists>ty sz. (fst entry, ty, sz) \<in> set (tensor_infos g) \<and> snd entry = element_count ty sz)
          \<or> entry \<in> demo_entries" by blast
  have pos: "0 < n_vocab m \<longleftrightarrow> kv_u32 g ''llama.vocab_size'' \<noteq> Some 0"
    using nv by (auto simp: u32_or_def uint_pos_iff split: option.splits)
  from g look nv pos ne ts show ?thesis
    by (auto simp: u32_or_def)
qed

theorem loadModel_success_model_witness:
  "loadModel initial_state (good_file small_container)
     = (1, snd (loadModel initial_state (good_file small_container)))
   \<and> (1 :: int) \<noteq> 0
   \<and> (\<exists>m. map_of (models (snd (loadModel initial_state (good_file small_container)))) 1 = Some m
        \<and> n_vocab m = 0
        \<and> tensors m \<noteq> []
        \<and> set (tensors m) \<subseteq> {(''token_embd.weight'', element_count GGML_TYPE_F32 4096)}
                                \<union> demo_entries)"
proof -
  have f: "fst (loadModel initial_state (good_file small_container)) = 1"
    by (simp add: gov_defs ex_defs load_defs)
  have a: "loadModel initial_state (good_file small_container)
     = (1, snd (loadModel initial_state (good_file small_container)))"
    using f by (metis prod.collapse)
  have b: "(1 :: int) \<noteq> 0" by simp
  from loadModel_success_model [OF a b]
  obtain g m where g: "gguf_init_from_file (good_file small_container) = Some g"
    and m: "map_of (models (snd (loadModel initial_state (good_file small_container)))) 1 = Some m"
    and v: "n_vocab m = (case kv_u32 g ''llama.vocab_size'' of Some v \<Rightarrow> uint v | None \<Rightarrow> 32000)"
    and ne: "tensors m \<noteq> []"
    and ts: "\<forall>entry \<in> set (tensors m).
          (\<exists>ty sz. (fst entry, ty, sz) \<in> set (tensor_infos g)
              \<and> snd entry = element_count ty sz)
          \<or> entry \<in> demo_entries" by blast
  from g have g': "g = small_container" by (simp add: good_file_def)
  from v have v0: "n_vocab m = 0" by (simp add: g' small_container_def)
  have "set (tensors m) \<subseteq> {(''token_embd.weight'', element_count GGML_TYPE_F32 4096)}
                                \<union> demo_entries"
  proof
    fix entry assume "entry \<in> set (tensors m)"
    with ts have "(\<exists>ty sz. (fst entry, ty, sz) \<in> set (tensor_infos g)
              \<and> snd entry = element_count ty sz) \<or> entry \<in> demo_entries" by blast
    then show "entry \<in> {(''token_embd.weight'', element_count GGML_TYPE_F32 4096)}
                                \<union> demo_entries"
      by (cases entry) (auto simp: g' small_container_def)
  qed
  with a b m v0 ne show ?thesis by blast
qed







section \<open>Properties of the forward pass\<close>

lemma real_arith_fields:
  "float_of real_arith x = x" "int_to_float real_arith n = real_of_int n"
  "fadd real_arith a b = a + b" "fsub real_arith a b = a - b"
  "fmul real_arith a b = a * b" "fdiv real_arith a b = a / b"
  "fless real_arith a b = (a < b)" "fle real_arith a b = (a \<le> b)"
  "exp_stored real_arith x = exp x" "sin_weight real_arith x = 0.1 * sin x"
  by (simp_all add: real_arith_def int_to_float_def)

lemma to_int32_id: "in_int_range x \<Longrightarrow> to_int32 x = x"
proof -
  assume "in_int_range x"
  then have "- (2 ^ 31) \<le> x" "x < 2 ^ 31" by (simp_all add: in_int_range_def)
  then have "signed_take_bit 31 x = x" by (rule signed_take_bit_int_eq_self)
  then show ?thesis by (simp add: to_int32_def sint_sbintrunc')
qed

lemma in_int_range_nonneg: "0 \<le> x \<Longrightarrow> x < 2 ^ 31 \<Longrightarrow> in_int_range x"
  by (simp add: in_int_range_def)

lemma length_write_output [simp]: "length (write_output idx v out) = length out"
  by (simp add: write_output_def)

lemma length_fold_write:
  "length (fold (\<lambda>k. write_output (f k) (g k)) ks out) = length out"
  by (induction ks arbitrary: out) simp_all

lemma length_attention_head [simp]:
  "length (attention_head fl input seq_len d_model d_head h out) = length out"
proof -
  have "length (fold (\<lambda>i. fold (\<lambda>k. write_output (f i k) (g i k)) ks) is out) = length out"
    for f :: "int \<Rightarrow> int \<Rightarrow> int" and g ks "is"
    by (induction "is" arbitrary: out) (simp_all add: length_fold_write)
  then show ?thesis by (simp add: attention_head_def Let_def)
qed

lemma computeAttention_returns:
  assumes "to_int32 (n_head m) \<noteq> 0" "0 \<le> to_int32 (n_embd m)"
    "in_int_range (seq_len * seq_len)"
  shows "\<exists>out. computeAttention fl input m seq_len = Inr out"
  using assms by (simp add: computeAttention_def Let_def)

lemma run_layers_returns:
  assumes "to_int32 (n_head m) \<noteq> 0" "0 \<le> to_int32 (n_embd m)"
    "in_int_range (seq_len * seq_len)"
  shows "\<exists>out. run_layers fl n m seq_len x = Inr out"
proof (induction n arbitrary: x)
  case 0
  then show ?case by simp
next
  case (Suc n)
  from computeAttention_returns [OF assms, of fl x]
  obtain a where "computeAttention fl x m seq_len = Inr a" by blast
  with Suc show ?case by (simp add: transformer_layer_def)
qed

lemma forwardPass_frame:
  "forwardPass fl tokens context_id s rng = Inr (logits0, s1, rng1) \<Longrightarrow> s1 = s"
  by (auto simp: forwardPass_def Let_def split: option.splits if_splits sum.splits)

lemma forwardPass_result:
  assumes "forwardPass fl tokens context_id s rng = Inr (logits0, s1, rng1)"
  shows "\<exists>context m. map_of (contexts s) context_id = Some context
     \<and> map_of (models s) (model context) = Some m
     \<and> length logits0 = nat (n_vocab m) \<and> s1 = s \<and> rng1 = rand_skip (nat (n_vocab m)) rng"
  using assms
  by (auto simp: forwardPass_def Let_def split: option.splits if_splits sum.splits)

text \<open>
  C9, amended. For every non-empty token sequence and every registered model whose head
  count is not 0 (or that has no layer), with the sizes and counters of the pass within
  the range of \<open>int\<close>, the forward pass returns a logits vector of length exactly
  \<open>n_vocab\<close>, and the state it returns, with the model's tensors, vocabulary maps and
  hyperparameters, is the state it was called in; only the random generator has advanced
  by \<open>n_vocab\<close> draws.
\<close>

theorem forwardPass_logits_length:
  assumes ne: "tokens \<noteq> []"
    and ctx: "map_of (contexts s) context_id = Some context"
    and mdl: "map_of (models s) (model context) = Some m"
    and lim: "within_int_limits tokens m"
    and heads: "n_head m \<noteq> 0 \<or> n_layer m = 0"
  shows "\<exists>logits0. forwardPass fl tokens context_id s rng
            = Inr (logits0, s, rand_skip (nat (n_vocab m)) rng)
          \<and> length logits0 = nat (n_vocab m)"
proof -
  let ?n = "int (length tokens)"
  from lim have sq: "?n * ?n < 2 ^ 31" and e0: "0 \<le> n_embd m" and ne31: "?n * n_embd m < 2 ^ 31"
    and toks: "list_all (\<lambda>t. in_int_range t \<and> in_int_range (t + n_embd m)) tokens"
    and h: "0 \<le> n_head m" "n_head m < 2 ^ 31" and l: "0 \<le> n_layer m" "n_layer m < 2 ^ 31"
    and v: "0 \<le> n_vocab m" "n_vocab m < 2 ^ 31"
    by (simp_all add: within_int_limits_def)
  from ne have n1: "1 \<le> ?n" by (cases tokens) simp_all
  have nn: "?n \<le> ?n * ?n" using n1 by (simp add: mult_le_cancel_left1)
  have seq: "to_int32 ?n = ?n"
    using sq nn by (intro to_int32_id) (simp add: in_int_range_def)
  have emb_le: "n_embd m \<le> ?n * n_embd m" using n1 e0 by (simp add: mult_le_cancel_right1)
  have emb: "to_int32 (n_embd m) = n_embd m"
    using e0 ne31 emb_le by (intro to_int32_id) (simp add: in_int_range_def)
  have hd: "to_int32 (n_head m) = n_head m"
    using h by (intro to_int32_id) (simp add: in_int_range_def)
  have nonneg: "0 \<le> ?n * n_embd m" using e0 by simp
  have r1: "in_int_range (?n * n_embd m)" "\<not> ?n * n_embd m < 0"
    using nonneg ne31 by (simp_all add: in_int_range_def)
  have r2: "\<not> list_ex (\<lambda>token_id. 0 < n_embd m \<and> \<not> in_int_range (token_id + (n_embd m - 1))) tokens"
    using toks by (auto simp: list_ex_iff list_all_iff in_int_range_def)
  have "0 \<le> ?n - 1" using ne by (cases tokens) simp_all
  then have "0 \<le> (?n - 1) * n_embd m" using e0 by (rule mult_nonneg_nonneg)
  moreover have "(?n - 1) * n_embd m \<le> ?n * n_embd m" using e0 by (simp add: mult_right_mono)
  ultimately have r3: "in_int_range ((?n - 1) * n_embd m)"
    using ne31 by (simp add: in_int_range_def)
  have r4: "in_int_range (n_layer m)" "in_int_range (n_vocab m)" "\<not> n_vocab m < 0"
    using l v by (simp_all add: in_int_range_def)
  have layers: "\<exists>out. run_layers fl (nat (n_layer m)) m ?n (token_embeddings fl m tokens ?n (n_embd m)) = Inr out"
  proof (cases "n_layer m = 0")
    case True
    then show ?thesis by simp
  next
    case False
    with heads have "to_int32 (n_head m) \<noteq> 0" by (simp add: hd)
    moreover have "0 \<le> to_int32 (n_embd m)" using e0 by (simp add: emb)
    moreover have "in_int_range (?n * ?n)"
      using sq by (intro in_int_range_nonneg) simp_all
    ultimately show ?thesis by (rule run_layers_returns)
  qed
  then obtain out where out: "run_layers fl (nat (n_layer m)) m ?n (token_embeddings fl m tokens ?n (n_embd m)) = Inr out"
    by blast
  have len: "length [0 .. n_vocab m - 1] = nat (n_vocab m)" by simp
  show ?thesis
    using ctx mdl r1 r2 r3 r4 out len
    by (simp add: forwardPass_def Let_def seq emb)
qed


lemmas stream_ex_defs = tiny_model_def tiny_state_def streaming_context_def started_state_def
  finished_state_def zero_draws_def last_draw_max_def zero_head_container_def
  zero_head_state_def scenario_model_def scenario_state_def

lemma to_int32_numerals [simp]:
  "to_int32 0 = 0" "to_int32 1 = 1" "to_int32 2 = 2" "to_int32 4 = 4" "to_int32 8 = 8"
  "to_int32 51 = 51" "to_int32 64 = 64"
  by (simp_all add: to_int32_def)

text \<open>
  C9, as stated, fails: a container may store a head count of 0. With one layer the
  forward pass on the loaded model computes \<open>d_model / n_heads\<close> in
  \<open>computeAttention\<close>, a division by zero, and returns no logits.
\<close>

theorem forwardPass_counterexample:
  "fst (loadModel initial_state (good_file zero_head_container)) = 1
   \<and> loaded (the (map_of (models zero_head_state) 1))
   \<and> n_head (the (map_of (models zero_head_state) 1)) = 0
   \<and> n_layer (the (map_of (models zero_head_state) 1)) = 1
   \<and> n_vocab (the (map_of (models zero_head_state) 1)) = 4
   \<and> forwardPass real_arith [2, 1] 2 zero_head_state zero_draws = Inl DivideByZero"
  by (simp add: zero_head_state_def zero_head_container_def gov_defs ex_defs load_defs
      forwardPass_def in_int_range_def transformer_layer_def computeAttention_def array_token_def)

theorem forwardPass_logits_length_witness:
  "map_of (contexts scenario_state) 2 = Some (streaming_context 5)
   \<and> map_of (models scenario_state) (model (streaming_context 5)) = Some scenario_model
   \<and> within_int_limits [2, 29, 1] scenario_model
   \<and> n_head scenario_model = 4
   \<and> n_vocab scenario_model = 64
   \<and> (\<exists>logits0. forwardPass real_arith [2, 29, 1] 2 scenario_state zero_draws
                   = Inr (logits0, scenario_state, rand_skip 64 zero_draws)
                 \<and> length logits0 = 64)"
proof -
  have a: "[2, 29, 1] \<noteq> ([] :: int list)" by simp
  have b: "map_of (contexts scenario_state) 2 = Some (streaming_context 5)"
    by (simp add: scenario_state_def)
  have c: "map_of (models scenario_state) (model (streaming_context 5)) = Some scenario_model"
    by (simp add: scenario_state_def stream_ex_defs ex_defs)
  have d: "within_int_limits [2, 29, 1] scenario_model"
    by (simp add: within_int_limits_def in_int_range_def stream_ex_defs ex_defs)
  have e: "n_head scenario_model = 4" "n_vocab scenario_model = 64"
    by (simp_all add: stream_ex_defs ex_defs)
  have f: "n_head scenario_model \<noteq> 0 \<or> n_layer scenario_model = 0"
    using e by simp
  from forwardPass_logits_length [OF a b c d f, of real_arith zero_draws] b c d e
  show ?thesis by simp
qed


section \<open>Properties of streaming generation\<close>

text \<open>
  \<open>std_sort\<close> meets the postcondition of \<open>std::sort\<close>: its result has the
  elements and the length of its argument, without repetition when the argument has
  none, and when the comparison is a strict weak ordering of them no element of the
  result is ordered before an earlier one.
\<close>

lemma set_insert_sorted: "set (insert_sorted cmp x ys) = insert x (set ys)"
  by (induction ys) auto

lemma length_insert_sorted: "length (insert_sorted cmp x ys) = Suc (length ys)"
  by (induction ys) simp_all

lemma set_std_sort: "set (std_sort cmp xs) = set xs"
  by (induction xs) (simp_all add: std_sort_def set_insert_sorted)

lemma length_std_sort: "length (std_sort cmp xs) = length xs"
  by (induction xs) (simp_all add: std_sort_def length_insert_sorted)

lemma swo_irrefl: "strict_weak_ordering cmp zs \<Longrightarrow> a \<in> set zs \<Longrightarrow> \<not> cmp a a"
  by (simp add: strict_weak_ordering_def list_all_iff)

lemma swo_trans:
  "strict_weak_ordering cmp zs \<Longrightarrow> a \<in> set zs \<Longrightarrow> b \<in> set zs \<Longrightarrow> c \<in> set zs
     \<Longrightarrow> cmp a b \<Longrightarrow> cmp b c \<Longrightarrow> cmp a c"
  unfolding strict_weak_ordering_def list_all_iff by blast

lemma swo_incomparable:
  "strict_weak_ordering cmp zs \<Longrightarrow> a \<in> set zs \<Longrightarrow> b \<in> set zs \<Longrightarrow> c \<in> set zs
     \<Longrightarrow> \<not> cmp a b \<Longrightarrow> \<not> cmp b a \<Longrightarrow> \<not> cmp b c \<Longrightarrow> \<not> cmp c b
     \<Longrightarrow> \<not> cmp a c \<and> \<not> cmp c a"
  unfolding strict_weak_ordering_def list_all_iff by blast

lemma swo_negtrans:
  assumes swo: "strict_weak_ordering cmp zs"
    and mem: "z \<in> set zs" "y \<in> set zs" "x \<in> set zs"
    and zy: "\<not> cmp z y" and yx: "\<not> cmp y x"
  shows "\<not> cmp z x"
proof
  assume zx: "cmp z x"
  have yz: "\<not> cmp y z" using swo_trans [OF swo mem(2) mem(1) mem(3)] zx yx by blast
  have xy: "\<not> cmp x y" using swo_trans [OF swo mem(1) mem(3) mem(2)] zx zy by blast
  from swo_incomparable [OF swo mem(1) mem(2) mem(3) zy yz yx xy] zx show False by simp
qed

lemma sorted_insert_sorted:
  assumes swo: "strict_weak_ordering cmp zs"
    and x: "x \<in> set zs"
  shows "set ys \<subseteq> set zs \<Longrightarrow> sorted_wrt (\<lambda>a b. \<not> cmp b a) ys
           \<Longrightarrow> sorted_wrt (\<lambda>a b. \<not> cmp b a) (insert_sorted cmp x ys)"
proof (induction ys)
  case Nil
  then show ?case by simp
next
  case (Cons y ys)
  from Cons.prems have y: "y \<in> set zs" and ys: "set ys \<subseteq> set zs"
    and after: "\<forall>z \<in> set ys. \<not> cmp z y" and srt: "sorted_wrt (\<lambda>a b. \<not> cmp b a) ys"
    by simp_all
  show ?case
  proof (cases "cmp y x")
    case True
    have "\<not> cmp x y"
      using swo_trans [OF swo y x y True] swo_irrefl [OF swo y] by blast
    with True after Cons.IH [OF ys srt] show ?thesis
      by (simp add: set_insert_sorted)
  next
    case False
    have "\<not> cmp z x" if "z \<in> set ys" for z
      using swo_negtrans [OF swo _ y x _ False, of z] that ys after by blast
    with False Cons.prems show ?thesis by auto
  qed
qed

lemma sorted_std_sort:
  assumes swo: "strict_weak_ordering cmp zs"
  shows "set xs \<subseteq> set zs \<Longrightarrow> sorted_wrt (\<lambda>a b. \<not> cmp b a) (std_sort cmp xs)"
proof (induction xs)
  case Nil
  then show ?case by (simp add: std_sort_def)
next
  case (Cons x xs)
  then have x: "x \<in> set zs" and xs: "set xs \<subseteq> set zs" by simp_all
  have "set (std_sort cmp xs) \<subseteq> set zs" using xs by (simp add: set_std_sort)
  from sorted_insert_sorted [OF swo x this Cons.IH [OF xs]]
  show ?case by (simp add: std_sort_def)
qed

lemma distinct_insert_sorted:
  "x \<notin> set ys \<Longrightarrow> distinct ys \<Longrightarrow> distinct (insert_sorted cmp x ys)"
  by (induction ys) (auto simp: set_insert_sorted)

lemma distinct_std_sort: "distinct xs \<Longrightarrow> distinct (std_sort cmp xs)"
  by (induction xs)
    (simp_all add: std_sort_def distinct_insert_sorted set_std_sort [unfolded std_sort_def])

lemma distinct_candidates: "distinct (candidates probs)"
  by (simp add: candidates_def distinct_zipI2)

lemma top_tokens_sorted:
  assumes "strict_weak_ordering (pair_greater fl) (candidates probs)"
  shows "sorted_wrt (\<lambda>a b. \<not> pair_greater fl b a) (top_tokens fl probs)"
    and "set (top_tokens fl probs) = set (candidates probs)"
    and "length (top_tokens fl probs) = length probs"
    and "distinct (top_tokens fl probs)"
  using sorted_std_sort [OF assms subset_refl]
  by (simp_all add: top_tokens_def set_std_sort length_std_sort distinct_std_sort
      distinct_candidates, simp add: candidates_def)

lemma roulette_beyond:
  assumes "list_all (\<lambda>c. \<not> fle fl random_val c) (cumulative_values fl cumulative cands)"
  shows "roulette fl random_val cumulative cands best_token = best_token"
  using assms by (induction cands arbitrary: cumulative) simp_all

text \<open>
  C10. When the context is streaming below its limit, the forward pass returns a non-empty
  logits vector whose candidates \<open>std::sort\<close> can order, and the uniform draw
  \<open>(float)rand() / (float)RAND_MAX\<close> exceeds the cumulative probability of the top-K
  candidates, that is, the test \<open>random_val <= cumulative\<close> fails for the value of
  \<open>cumulative\<close> after each of the top-K candidates, the last of which is their whole
  probability mass, \<open>generateNextStreamingToken\<close> returns without error, having
  appended the id 0 to the running context and to the generated list and counted one more
  token; exactly one further draw is consumed, so nothing is resampled. This holds for
  every interpretation of the \<open>float\<close> operations.
\<close>

theorem nextToken_draw_beyond_top_k:
  assumes ctx: "map_of (contexts s) context_id = Some context"
    and streaming: "is_streaming context"
    and count: "tokens_generated context < max_tokens_to_generate context"
    and fp: "forwardPass fl (full_context_tokens context) context_id s rng
               = Inr (logits0, s1, rng1)"
    and nonempty: "logits0 \<noteq> []"
    and ordered: "strict_weak_ordering (pair_greater fl) (candidates (softmax_probs fl logits0))"
    and draw: "list_all (\<lambda>cumulative. \<not> fle fl (random_value fl (rng1 0)) cumulative)
                 (cumulative_values fl (float_of fl 0)
                    (take (top_k (softmax_probs fl logits0))
                       (top_tokens fl (softmax_probs fl logits0))))"
  shows "\<exists>token_text.
           generateNextStreamingToken fl s context_id rng
             = Inr (token_text,
                    s\<lparr>contexts := AList.update context_id
                         (context\<lparr>full_context_tokens := full_context_tokens context @ [0],
                                  generated_tokens := generated_tokens context @ [0],
                                  tokens_generated := tokens_generated context + 1\<rparr>)
                         (contexts s)\<rparr>,
                    rand_skip 1 rng1)"
proof -
  from forwardPass_result [OF fp] ctx
  obtain m where m: "map_of (models s) (model context) = Some m" and s1: "s1 = s"
    by auto
  have smp: "sample_token fl logits0 m (rng1 0) = Inr 0"
    using nonempty ordered roulette_beyond [OF draw, of 0]
    by (simp add: sample_token_def Let_def)
  show ?thesis
    using ctx streaming count fp m s1 smp
    by (simp add: generateNextStreamingToken_def Let_def)
qed

lemma strict_weak_ordering_real: "strict_weak_ordering (pair_greater real_arith) xs"
  by (auto simp: strict_weak_ordering_def pair_greater_def real_arith_fields list_all_iff)

lemma cumulative_values_real:
  assumes "\<forall>c \<in> set cands. 0 \<le> fst c"
    and "cumulative + sum_list (map fst cands) < random_val"
  shows "list_all (\<lambda>c. \<not> fle real_arith random_val c)
           (cumulative_values real_arith cumulative cands)"
  using assms
proof (induction cands arbitrary: cumulative)
  case Nil
  then show ?case by simp
next
  case (Cons c cands)
  have nonneg: "0 \<le> sum_list (map fst cands)"
    using Cons.prems(1) by (intro sum_list_nonneg) auto
  have step: "\<not> random_val \<le> cumulative + fst c"
    using Cons.prems(2) nonneg by simp
  have rest: "(cumulative + fst c) + sum_list (map fst cands) < random_val"
    using Cons.prems(2) by simp
  from Cons.IH [OF _ rest] Cons.prems(1) step show ?case
    by (simp add: real_arith_fields)
qed

lemma map_const: "(\<And>x. x \<in> set xs \<Longrightarrow> f x = c) \<Longrightarrow> map f xs = replicate (length xs) c"
  by (induction xs) simp_all

lemma concat_map_Nil: "concat (map (\<lambda>i. []) xs) = []"
  by (induction xs) simp_all

lemma funpow_add: "((\<lambda>sum. sum + c) ^^ n) a = a + real n * c"
  by (induction n) (simp_all add: algebra_simps)

lemma max_element_replicate:
  "((\<lambda>largest. if fless real_arith largest x then x else largest) ^^ k) x = x"
  by (induction k) (simp_all add: real_arith_fields)

lemma softmax_probs_replicate:
  assumes "0 < n"
  shows "softmax_probs real_arith (replicate n c) = replicate n (1 / real n)"
proof -
  obtain k where n: "n = Suc k" using assms by (cases n) auto
  have mx: "max_element real_arith (replicate n (c / temperature real_arith))
              = c / temperature real_arith"
    by (simp add: max_element_def n max_element_replicate)
  show ?thesis
    by (simp add: softmax_probs_def Let_def real_arith_fields mx funpow_add)
qed

lemma top_tokens_fst: "c \<in> set (top_tokens fl probs) \<Longrightarrow> fst c \<in> set probs"
  by (cases c) (auto simp: top_tokens_def candidates_def set_std_sort dest: set_zip_leftD)

lemma top_tokens_replicate:
  "map fst (top_tokens fl (replicate n p)) = replicate n p"
proof -
  have len: "length (top_tokens fl (replicate n p)) = n"
    by (simp add: top_tokens_def candidates_def length_std_sort)
  have "map fst (top_tokens fl (replicate n p))
          = replicate (length (top_tokens fl (replicate n p))) p"
    by (rule map_const) (use top_tokens_fst in fastforce)
  with len show ?thesis by simp
qed

lemma wide_forwardPass:
  "forwardPass real_arith [2, 1] 2 (started_state 51) last_draw_max
     = Inr (replicate 51 (2 / 5), started_state 51, rand_skip 51 last_draw_max)"
proof -
  have "map (\<lambda>i. logit_value real_arith [] 0 0 i (last_draw_max (nat i))) [0 .. 50]
          = replicate (length [0 .. 50 :: int]) (2 / 5)"
    by (rule map_const)
      (auto simp: logit_value_def real_arith_fields last_draw_max_def RAND_MAX_def)
  then show ?thesis
    by (simp add: forwardPass_def started_state_def tiny_state_def tiny_model_def
        streaming_context_def ex_defs in_int_range_def token_embeddings_def concat_map_Nil)
qed

theorem nextToken_draw_beyond_top_k_witness:
  "map_of (contexts (started_state 51)) 2 = Some (streaming_context 5)
   \<and> is_streaming (streaming_context 5)
   \<and> tokens_generated (streaming_context 5) < max_tokens_to_generate (streaming_context 5)
   \<and> forwardPass real_arith (full_context_tokens (streaming_context 5)) 2 (started_state 51)
         last_draw_max
       = Inr (replicate 51 (2 / 5), started_state 51, rand_skip 51 last_draw_max)
   \<and> strict_weak_ordering (pair_greater real_arith)
       (candidates (softmax_probs real_arith (replicate 51 (2 / 5))))
   \<and> random_value real_arith (rand_skip 51 last_draw_max 0) = 1
   \<and> list_all (\<lambda>cumulative. cumulative < 1)
       (cumulative_values real_arith (float_of real_arith 0)
          (take (top_k (softmax_probs real_arith (replicate 51 (2 / 5))))
             (top_tokens real_arith (softmax_probs real_arith (replicate 51 (2 / 5))))))
   \<and> (\<exists>token_text.
         generateNextStreamingToken real_arith (started_state 51) 2 last_draw_max
           = Inr (token_text,
                  (started_state 51)\<lparr>contexts := [(2, (streaming_context 5)
                       \<lparr>full_context_tokens := [2, 1, 0], generated_tokens := [0],
                        tokens_generated := 1\<rparr>)]\<rparr>,
                  rand_skip 1 (rand_skip 51 last_draw_max)))"
proof -
  let ?probs = "softmax_probs real_arith (replicate 51 (2 / 5))"
  let ?cands = "take (top_k ?probs) (top_tokens real_arith ?probs)"
  have a: "map_of (contexts (started_state 51)) 2 = Some (streaming_context 5)"
    by (simp add: started_state_def)
  have b: "is_streaming (streaming_context 5)"
    by (simp add: streaming_context_def)
  have c: "tokens_generated (streaming_context 5) < max_tokens_to_generate (streaming_context 5)"
    by (simp add: streaming_context_def ex_defs)
  have t: "full_context_tokens (streaming_context 5) = [2, 1]"
    "generated_tokens (streaming_context 5) = []" "tokens_generated (streaming_context 5) = 0"
    by (simp_all add: streaming_context_def ex_defs)
  have d: "forwardPass real_arith (full_context_tokens (streaming_context 5)) 2
             (started_state 51) last_draw_max
           = Inr (replicate 51 (2 / 5), started_state 51, rand_skip 51 last_draw_max)"
    using wide_forwardPass by (simp add: t)
  have e: "replicate 51 (2 / 5 :: real) \<noteq> []" by simp
  have o: "strict_weak_ordering (pair_greater real_arith) (candidates ?probs)"
    by (rule strict_weak_ordering_real)
  have fsts: "map fst ?cands = replicate 50 (1 / 51)"
    by (simp add: softmax_probs_replicate take_map [symmetric] top_tokens_replicate top_k_def)
  have nonneg: "\<forall>c \<in> set ?cands. 0 \<le> fst c"
  proof
    fix c assume "c \<in> set ?cands"
    then have "fst c \<in> set (map fst ?cands)" by simp
    then show "0 \<le> fst c" by (simp add: fsts)
  qed
  have g: "random_value real_arith (rand_skip 51 last_draw_max 0) = 1"
    by (simp add: random_value_def real_arith_fields rand_skip_def last_draw_max_def
        RAND_MAX_def)
  have mass: "0 + sum_list (map fst ?cands) < (1 :: real)"
    by (simp add: fsts sum_list_replicate)
  have h: "list_all (\<lambda>cumulative. \<not> fle real_arith
                (random_value real_arith (rand_skip 51 last_draw_max 0)) cumulative)
             (cumulative_values real_arith (float_of real_arith 0) ?cands)"
    using cumulative_values_real [OF nonneg mass] by (simp add: g real_arith_fields)
  then have below: "list_all (\<lambda>cumulative. cumulative < 1)
             (cumulative_values real_arith (float_of real_arith 0) ?cands)"
    by (simp add: g real_arith_fields not_le)
  have u: "contexts (started_state 51) = [(2, streaming_context 5)]"
    by (simp add: started_state_def)
  from nextToken_draw_beyond_top_k [OF a b c d e o h] a b c d o g below
  show ?thesis by (simp add: t u)
qed

lemma startStreamingInference_success:
  assumes "startStreamingInference s0 context_id input max_tokens = Inr (ok, s1)"
  shows "\<exists>c. map_of (contexts s1) context_id = Some c
     \<and> max_tokens_to_generate c = max_tokens \<and> tokens_generated c = 0
     \<and> generated_tokens c = [] \<and> is_streaming c"
  using assms
  by (auto simp: startStreamingInference_def Let_def update_conv' split: option.splits)

lemma startStreaming_success:
  assumes "startStreaming s context_id (Some input) max_tokens = Inr (True, s1)"
  shows "0 < max_tokens \<and> max_tokens \<le> 2048
     \<and> (\<exists>c. map_of (contexts s1) context_id = Some c
          \<and> max_tokens_to_generate c = max_tokens \<and> tokens_generated c = 0
          \<and> generated_tokens c = [] \<and> is_streaming c)"
proof -
  obtain r0 s0 where r0: "(if \<not> checkMemoryHealth s then recoverFromMemoryError s else (True, s)) = (r0, s0)"
    by (cases "if \<not> checkMemoryHealth s then recoverFromMemoryError s else (True, s)")
  from assms r0 have range: "0 < max_tokens \<and> max_tokens \<le> 2048"
    and inner: "startStreamingInference s0 context_id input max_tokens = Inr (True, s1)"
    by (auto simp: startStreaming_def split: option.splits if_splits)
  from startStreamingInference_success [OF inner] range show ?thesis by simp
qed

lemma generate_noop:
  assumes "map_of (contexts s) context_id = Some c"
    and "\<not> is_streaming c \<or> tokens_generated c \<ge> max_tokens_to_generate c"
  shows "generateNextStreamingToken fl s context_id rng = Inr ([], s, rng)"
  using assms by (auto simp: generateNextStreamingToken_def)

lemma getNext_noop:
  assumes "map_of (contexts s) context_id = Some c"
    and "\<not> is_streaming c \<or> tokens_generated c \<ge> max_tokens_to_generate c"
  shows "getNextStreamingToken fl s context_id rng = Inr ([], s, rng)"
  using assms generate_noop [OF assms, of fl rng]
  by (auto simp: getNextStreamingToken_def)

lemma generate_step_invariant:
  assumes step: "generateNextStreamingToken fl s context_id rng = Inr (t, s', rng')"
    and c: "map_of (contexts s) context_id = Some c"
    and inv: "stream_invariant max_tokens c"
  shows "\<exists>c'. map_of (contexts s') context_id = Some c' \<and> stream_invariant max_tokens c'"
proof (cases "\<not> is_streaming c \<or> tokens_generated c \<ge> max_tokens_to_generate c")
  case True
  from generate_noop [OF c True, of fl rng] step have "s' = s" by simp
  with c inv show ?thesis by simp
next
  case False
  then have str: "is_streaming c" and lt: "tokens_generated c < max_tokens_to_generate c"
    by auto
  from step c False obtain logits0 s1 rng1 where
    fp: "forwardPass fl (full_context_tokens c) context_id s rng = Inr (logits0, s1, rng1)"
    by (auto simp: generateNextStreamingToken_def split: sum.splits)
  from forwardPass_result [OF fp] c obtain m where
    m: "map_of (models s) (model c) = Some m" and s1: "s1 = s" by auto
  from step c False fp m s1 obtain best_token where
    b: "sample_token fl logits0 m (rng1 0) = Inr best_token"
    by (auto simp: generateNextStreamingToken_def split: sum.splits)
  let ?c1 = "c\<lparr>full_context_tokens := full_context_tokens c @ [best_token],
              generated_tokens := generated_tokens c @ [best_token],
              tokens_generated := tokens_generated c + 1\<rparr>"
  let ?c2 = "if best_token = 3 then ?c1\<lparr>is_streaming := False\<rparr> else ?c1"
  from step c False fp m s1 b
  have s': "s' = s\<lparr>contexts := AList.update context_id ?c2 (contexts s)\<rparr>"
    by (auto simp: generateNextStreamingToken_def Let_def)
  have look: "map_of (contexts s') context_id = Some ?c2"
    by (simp add: s' update_conv')
  from inv str have no3: "3 \<notin> set (generated_tokens c)"
    by (auto simp: stream_invariant_def)
  have "stream_invariant max_tokens ?c2"
    using inv lt no3 by (auto simp: stream_invariant_def)
  with look show ?thesis by blast
qed

lemma getNext_step_invariant:
  assumes step: "getNextStreamingToken fl s context_id rng = Inr (t, s', rng')"
    and c: "map_of (contexts s) context_id = Some c"
    and inv: "stream_invariant max_tokens c"
  shows "\<exists>c'. map_of (contexts s') context_id = Some c' \<and> stream_invariant max_tokens c'"
proof (cases "\<not> initialized c \<or> \<not> is_streaming c")
  case True
  with step c have "s' = s" by (auto simp: getNextStreamingToken_def split: if_splits)
  with c inv show ?thesis by simp
next
  case False
  show ?thesis
  proof (cases "generateNextStreamingToken fl s context_id rng")
    case (Inl f)
    with step c False have "s' = s\<lparr>contexts :=
        AList.update context_id (c\<lparr>is_streaming := False\<rparr>) (contexts s)\<rparr>"
      by (auto simp: getNextStreamingToken_def split: if_splits)
    then have "map_of (contexts s') context_id = Some (c\<lparr>is_streaming := False\<rparr>)"
      by (simp add: update_conv')
    moreover have "stream_invariant max_tokens (c\<lparr>is_streaming := False\<rparr>)"
      using inv by (simp add: stream_invariant_def)
    ultimately show ?thesis by blast
  next
    case (Inr r)
    obtain t1 s1 rng1 where r: "r = (t1, s1, rng1)" by (cases r)
    with step c False Inr have "s' = s1"
      by (auto simp: getNextStreamingToken_def)
    with generate_step_invariant [OF Inr [unfolded r] c inv] show ?thesis by simp
  qed
qed

lemma nextToken_calls_invariant:
  assumes "nextToken_calls fl n s context_id rng = Inr (s2, rng2)"
    and "map_of (contexts s) context_id = Some c"
    and "stream_invariant max_tokens c"
  shows "\<exists>c2. map_of (contexts s2) context_id = Some c2 \<and> stream_invariant max_tokens c2"
  using assms
proof (induction n arbitrary: s rng c)
  case 0
  then show ?case by simp
next
  case (Suc n)
  from Suc.prems(1) obtain t s1 rng1 where
    first: "getNextStreamingToken fl s context_id rng = Inr (t, s1, rng1)"
    and rest: "nextToken_calls fl n s1 context_id rng1 = Inr (s2, rng2)"
    by (auto split: sum.splits)
  from getNext_step_invariant [OF first Suc.prems(2,3)]
  obtain c1 where "map_of (contexts s1) context_id = Some c1" "stream_invariant max_tokens c1"
    by blast
  from Suc.IH [OF rest this] show ?case .
qed

text \<open>
  C4. After \<open>startStreaming\<close> succeeded with \<open>max_tokens\<close>, in the state reached
  by any number of \<open>getNextStreamingToken\<close> calls the context still has that limit,
  its counter is at most \<open>max_tokens\<close> and equals the number of generated tokens; when
  the context is not streaming or the counter has reached the limit, a further call (at
  the boundary or of \<open>generateNextStreamingToken\<close> itself) returns the empty string and
  the same state and generator; and once the counter equals \<open>max_tokens\<close> or the id 3
  was generated, \<open>isStreamingComplete\<close> is true.
\<close>

theorem streaming_never_exceeds_max_tokens:
  assumes start: "startStreaming s context_id (Some input) max_tokens = Inr (True, s1)"
    and calls: "nextToken_calls fl n s1 context_id rng = Inr (s2, rng2)"
  shows "\<exists>ctx. map_of (contexts s2) context_id = Some ctx
    \<and> max_tokens_to_generate ctx = max_tokens
    \<and> tokens_generated ctx \<le> max_tokens
    \<and> int (length (generated_tokens ctx)) = tokens_generated ctx
    \<and> (\<not> is_streaming ctx \<or> tokens_generated ctx \<ge> max_tokens
         \<longrightarrow> (\<forall>r. getNextStreamingToken fl s2 context_id r = Inr ([], s2, r))
           \<and> (\<forall>r. generateNextStreamingToken fl s2 context_id r = Inr ([], s2, r)))
    \<and> (tokens_generated ctx = max_tokens \<or> 3 \<in> set (generated_tokens ctx)
         \<longrightarrow> isStreamingComplete ctx \<and> jni_isStreamingComplete s2 context_id)"
proof -
  from startStreaming_success [OF start]
  obtain c where c: "map_of (contexts s1) context_id = Some c"
    and range: "0 < max_tokens" "max_tokens \<le> 2048"
    and f: "max_tokens_to_generate c = max_tokens" "tokens_generated c = 0"
      "generated_tokens c = []" "is_streaming c"
    by blast
  have inv: "stream_invariant max_tokens c"
    using f range by (simp add: stream_invariant_def)
  from nextToken_calls_invariant [OF calls c inv]
  obtain c2 where c2: "map_of (contexts s2) context_id = Some c2"
    and inv2: "stream_invariant max_tokens c2" by blast
  have noop: "(\<forall>r. getNextStreamingToken fl s2 context_id r = Inr ([], s2, r))
           \<and> (\<forall>r. generateNextStreamingToken fl s2 context_id r = Inr ([], s2, r))"
    if "\<not> is_streaming c2 \<or> tokens_generated c2 \<ge> max_tokens"
    using that inv2 getNext_noop [where fl = fl, OF c2] generate_noop [where fl = fl, OF c2]
    by (simp add: stream_invariant_def)
  have complete: "isStreamingComplete c2 \<and> jni_isStreamingComplete s2 context_id"
    if "tokens_generated c2 = max_tokens \<or> 3 \<in> set (generated_tokens c2)"
    using that inv2 c2
    by (auto simp: stream_invariant_def isStreamingComplete_def jni_isStreamingComplete_def)
  from c2 inv2 noop complete show ?thesis
    by (auto simp: stream_invariant_def)
qed


lemmas tok_defs = tokenizeAdvanced_def tokenize_step_def isalnum_def tolower_def
  is_space_def is_punct_def word_tokens_def tokenizeSubword_def subword_loop.simps

lemma tiny_start:
  "startStreaming (tiny_state 4) 2 (Some ''hi'') 5 = Inr (True, started_state 4)"
  by (simp add: startStreaming_def startStreamingInference_def gov_defs ex_defs tok_defs
      stream_ex_defs)

lemma streaming_context_fields:
  "is_streaming (streaming_context n) = True"
  "tokens_generated (streaming_context n) = 0"
  "max_tokens_to_generate (streaming_context n) = n"
  "full_context_tokens (streaming_context n) = [2, 1]"
  "generated_tokens (streaming_context n) = []"
  "model (streaming_context n) = 1"
  "initialized (streaming_context n) = True"
  by (simp_all add: streaming_context_def idle_context_def new_RealInferenceContext_def)

lemma started_state_fields:
  "map_of (contexts (started_state v)) 2 = Some (streaming_context 5)"
  "map_of (models (started_state v)) 1 = Some (tiny_model v)"
  "contexts (started_state v) = [(2, streaming_context 5)]"
  by (simp_all add: started_state_def tiny_state_def)

lemma tiny_forwardPass:
  "forwardPass real_arith [2, 1] 2 (started_state 4) zero_draws
     = Inr ([2 / 5, 2 / 5, 2 / 5, 2 / 5], started_state 4, rand_skip 4 zero_draws)"
  by (simp add: forwardPass_def stream_ex_defs ex_defs in_int_range_def token_embeddings_def
      logit_value_def real_arith_fields RAND_MAX_def upto.simps)

lemma tiny_sample: "sample_token real_arith [2 / 5, 2 / 5, 2 / 5, 2 / 5] m 0 = Inr 3"
proof -
  have p: "softmax_probs real_arith [2 / 5, 2 / 5, 2 / 5, 2 / 5] = [1 / 4, 1 / 4, 1 / 4, 1 / 4]"
    by (simp add: softmax_probs_def max_element_def temperature_def real_arith_fields)
  have t: "top_tokens real_arith [1 / 4, 1 / 4, 1 / 4, 1 / 4]
             = [(1 / 4, 3), (1 / 4, 2), (1 / 4, 1), (1 / 4, 0)]"
    by (simp add: top_tokens_def candidates_def std_sort_def pair_greater_def
        real_arith_fields upto.simps)
  show ?thesis
    by (simp add: sample_token_def p t top_k_def strict_weak_ordering_real random_value_def
        real_arith_fields)
qed

lemma tiny_generate:
  "generateNextStreamingToken real_arith (started_state 4) 2 zero_draws
     = Inr (''</s>'', finished_state, zero_draws)"
proof -
  have r: "rand_skip 4 zero_draws 0 = 0" "rand_skip 1 (rand_skip 4 zero_draws) = zero_draws"
    "rand_skip (Suc 0) (rand_skip 4 zero_draws) = zero_draws"
    by (simp_all add: rand_skip_def zero_draws_def)
  have t: "id_to_token (tiny_model 4) 3 = Some ''</s>''"
    by (simp add: tiny_model_def)
  show ?thesis
    by (simp add: generateNextStreamingToken_def streaming_context_fields started_state_fields
        tiny_forwardPass tiny_sample r t)
      (simp add: finished_state_def started_state_def)
qed

lemma tiny_calls:
  "nextToken_calls real_arith 2 (started_state 4) 2 zero_draws = Inr (finished_state, zero_draws)"
proof -
  have first: "getNextStreamingToken real_arith (started_state 4) 2 zero_draws
                 = Inr (''</s>'', finished_state, zero_draws)"
    by (simp add: getNextStreamingToken_def started_state_fields streaming_context_fields
        tiny_generate)
  have second: "getNextStreamingToken real_arith finished_state 2 zero_draws
                 = Inr ([], finished_state, zero_draws)"
    by (simp add: getNextStreamingToken_def finished_state_def streaming_context_fields)
  have "nextToken_calls real_arith (Suc (Suc 0)) (started_state 4) 2 zero_draws
          = Inr (finished_state, zero_draws)"
    by (simp add: first second)
  then show ?thesis by (simp add: numeral_2_eq_2)
qed

theorem streaming_never_exceeds_max_tokens_witness:
  "startStreaming (tiny_state 4) 2 (Some ''hi'') 5 = Inr (True, started_state 4)
   \<and> nextToken_calls real_arith 2 (started_state 4) 2 zero_draws = Inr (finished_state, zero_draws)
   \<and> generated_tokens (the (map_of (contexts finished_state) 2)) = [3]
   \<and> tokens_generated (the (map_of (contexts finished_state) 2)) = 1
   \<and> jni_isStreamingComplete finished_state 2
   \<and> getNextStreamingToken real_arith finished_state 2 zero_draws = Inr ([], finished_state, zero_draws)"
proof -
  have look: "map_of (contexts finished_state) 2
      = Some ((streaming_context 5)\<lparr>full_context_tokens := [2, 1, 3],
               generated_tokens := [3], tokens_generated := 1, is_streaming := False\<rparr>)"
    by (simp add: finished_state_def)
  from streaming_never_exceeds_max_tokens [OF tiny_start tiny_calls]
  obtain ctx where ctx: "map_of (contexts finished_state) 2 = Some ctx"
    and noop: "\<not> is_streaming ctx \<or> tokens_generated ctx \<ge> 5
         \<longrightarrow> (\<forall>r. getNextStreamingToken real_arith finished_state 2 r = Inr ([], finished_state, r))
           \<and> (\<forall>r. generateNextStreamingToken real_arith finished_state 2 r = Inr ([], finished_state, r))"
    and complete: "tokens_generated ctx = 5 \<or> 3 \<in> set (generated_tokens ctx)
         \<longrightarrow> isStreamingComplete ctx \<and> jni_isStreamingComplete finished_state 2"
    by blast
  from ctx look have ctx_eq: "ctx = (streaming_context 5)\<lparr>full_context_tokens := [2, 1, 3],
               generated_tokens := [3], tokens_generated := 1, is_streaming := False\<rparr>"
    by simp
  have stopped: "\<not> is_streaming ctx" and eos: "3 \<in> set (generated_tokens ctx)"
    by (simp_all add: ctx_eq)
  from noop stopped have n: "getNextStreamingToken real_arith finished_state 2 zero_draws
      = Inr ([], finished_state, zero_draws)" by blast
  from complete eos have d: "jni_isStreamingComplete finished_state 2" by blast
  from n d have "jni_isStreamingComplete finished_state 2
      \<and> getNextStreamingToken real_arith finished_state 2 zero_draws = Inr ([], finished_state, zero_draws)"
    by simp
  with tiny_start tiny_calls look show ?thesis by simp
qed


end
